theory Spec2Isabelle
  imports Main "HOL-Library.Sublist"
begin

section \<open>The parsed document\<close>

text \<open>
  \<^verbatim>\<open>load_file\<close> stores in \<^verbatim>\<open>self.data\<close> what \<^verbatim>\<open>xmltodict.parse\<close> returns: a
  nesting of dicts, lists, strings and \<^verbatim>\<open>None\<close>. An element with attributes or children
  is a dict (attributes under \<^verbatim>\<open>'@attr'\<close>, text under \<^verbatim>\<open>'#text'\<close>), a repeated child
  element is a list, a text-only element is a string, an empty element is \<^verbatim>\<open>None\<close>.
  A dict is kept as an association list in insertion order; lookup takes the first entry
  of a key.
\<close>

datatype val =
    VNone
  | VStr string
  | VList "val list"
  | VDict "(string \<times> val) list"

datatype py_error =
    KeyError string
  | TypeError
  | AttributeError

subsection \<open>The Python operations the importer applies to the document\<close>

text \<open>\<^verbatim>\<open>v[k]\<close> with a string key: only a dict can be subscripted by a string.\<close>

fun getitem :: "val \<Rightarrow> string \<Rightarrow> py_error + val" where
  "getitem (VDict kvs) k = (case map_of kvs k of None \<Rightarrow> Inl (KeyError k) | Some v \<Rightarrow> Inr v)"
| "getitem (VStr s) k = Inl TypeError"
| "getitem (VList xs) k = Inl TypeError"
| "getitem VNone k = Inl TypeError"

text \<open>\<^verbatim>\<open>v.get(k, d)\<close>: only a dict has the method.\<close>

fun py_get :: "val \<Rightarrow> string \<Rightarrow> val \<Rightarrow> py_error + val" where
  "py_get (VDict kvs) k d = (case map_of kvs k of None \<Rightarrow> Inr d | Some v \<Rightarrow> Inr v)"
| "py_get (VStr s) k d = Inl AttributeError"
| "py_get (VList xs) k d = Inl AttributeError"
| "py_get VNone k d = Inl AttributeError"

text \<open>
  \<^verbatim>\<open>k in v\<close> for a string \<open>k\<close>: key membership in a dict, substring test in a string,
  element membership in a list, a \<^verbatim>\<open>TypeError\<close> on \<^verbatim>\<open>None\<close>.
\<close>

fun py_contains :: "string \<Rightarrow> val \<Rightarrow> py_error + bool" where
  "py_contains k (VDict kvs) = Inr (map_of kvs k \<noteq> None)"
| "py_contains k (VStr s) = Inr (sublist k s)"
| "py_contains k (VList xs) = Inr (VStr k \<in> set xs)"
| "py_contains k VNone = Inl TypeError"

text \<open>
  \<^verbatim>\<open>for x in v\<close>: a list yields its elements, a dict its keys, a string its characters
  (each a string of length one); \<^verbatim>\<open>None\<close> is not iterable.
\<close>

fun py_iter :: "val \<Rightarrow> py_error + val list" where
  "py_iter (VList xs) = Inr xs"
| "py_iter (VDict kvs) = Inr (map (\<lambda>kv. VStr (fst kv)) kvs)"
| "py_iter (VStr s) = Inr (map (\<lambda>c. VStr [c]) s)"
| "py_iter VNone = Inl TypeError"

text \<open>Evaluation of an expression stops at the first exception.\<close>

definition bind_e :: "py_error + 'a \<Rightarrow> ('a \<Rightarrow> py_error + 'b) \<Rightarrow> py_error + 'b" where
  "bind_e m k = (case m of Inl e \<Rightarrow> Inl e | Inr v \<Rightarrow> k v)"

text \<open>\<^verbatim>\<open>v[k1][k2]...[kn]\<close>\<close>

fun path :: "val \<Rightarrow> string list \<Rightarrow> py_error + val" where
  "path v [] = Inr v"
| "path v (k # ks) = bind_e (getitem v k) (\<lambda>w. path w ks)"

section \<open>Statements, sessions and drivers\<close>

text \<open>
  A call \<^verbatim>\<open>session.run(query, **params)\<close> with its parameters put in place.
  \<open>CreateNode l ps\<close> is \<^verbatim>\<open>CREATE (x:l {ps})\<close>; \<open>CreateRel r (la, pa) (lb, pb)\<close> is
  \<^verbatim>\<open>MATCH (a:la {pa}) MATCH (b:lb {pb}) CREATE (a)-[:r]->(b)\<close>.
\<close>

type_synonym props = "(string \<times> val) list"

datatype stmt =
    CreateNode string props
  | CreateRel string "string \<times> props" "string \<times> props"

datatype importer = Protein | Gene | Feature | Reference | Author | FullName | Organism

text \<open>
  What a run leaves behind: the statements given to \<^verbatim>\<open>session.run\<close> in order, the
  methods entered in order (a record of the calls; nothing reads it), and the numbers
  of drivers and sessions opened and not yet closed. \<^verbatim>\<open>session.run\<close> itself is taken to
  accept every statement: the store is not part of the repository.
\<close>

record state =
  log :: "stmt list"
  calls :: "importer list"
  open_drivers :: nat
  open_sessions :: nat

definition init :: state where
  "init = \<lparr>log = [], calls = [], open_drivers = 0, open_sessions = 0\<rparr>"

type_synonym outcome = "py_error option \<times> state"

definition open_database :: "state \<Rightarrow> state" where
  "open_database s = s\<lparr>open_drivers := Suc (open_drivers s)\<rparr>"

definition close_database :: "state \<Rightarrow> state" where
  "close_database s = s\<lparr>open_drivers := open_drivers s - 1\<rparr>"

definition session_run :: "stmt \<Rightarrow> state \<Rightarrow> state" where
  "session_run q s = s\<lparr>log := log s @ [q]\<rparr>"

text \<open>
  \<^verbatim>\<open>with driver.session() as session: body\<close>: the session is closed when the block is
  left, by its end or by an exception, and the exception goes on.
\<close>

definition with_session :: "(state \<Rightarrow> outcome) \<Rightarrow> state \<Rightarrow> outcome" where
  "with_session body s =
     (case body (s\<lparr>open_sessions := Suc (open_sessions s)\<rparr>) of
        (r, s') \<Rightarrow> (r, s'\<lparr>open_sessions := open_sessions s' - 1\<rparr>))"

text \<open>
  The frame every \<^verbatim>\<open>insert_*\<close> method has:
  \<^verbatim>\<open>
  driver = self.open_database()
  with driver.session() as session:
      body
  self.close_database(driver)
  \<close>
  The last line is reached only when the block raised nothing.
\<close>

definition sub_importer :: "importer \<Rightarrow> (state \<Rightarrow> outcome) \<Rightarrow> state \<Rightarrow> outcome" where
  "sub_importer nm body s =
     (case with_session body (open_database (s\<lparr>calls := calls s @ [nm]\<rparr>)) of
        (None, s') \<Rightarrow> (None, close_database s')
      | (Some e, s') \<Rightarrow> (Some e, s'))"

text \<open>An expression evaluated inside a method: its exception ends the method's block.\<close>

definition eval_then :: "py_error + 'a \<Rightarrow> ('a \<Rightarrow> state \<Rightarrow> outcome) \<Rightarrow> state \<Rightarrow> outcome" where
  "eval_then m k s = (case m of Inl e \<Rightarrow> (Some e, s) | Inr v \<Rightarrow> k v s)"

text \<open>A \<^verbatim>\<open>for\<close> loop over the elements already obtained; an exception leaves the loop.\<close>

fun for_each :: "('a \<Rightarrow> state \<Rightarrow> outcome) \<Rightarrow> 'a list \<Rightarrow> state \<Rightarrow> outcome" where
  "for_each f [] s = (None, s)"
| "for_each f (x # xs) s =
     (case f x s of (None, s') \<Rightarrow> for_each f xs s' | (Some e, s') \<Rightarrow> (Some e, s'))"

text \<open>Two statements in sequence.\<close>

definition then_do :: "(state \<Rightarrow> outcome) \<Rightarrow> (state \<Rightarrow> outcome) \<Rightarrow> state \<Rightarrow> outcome" where
  "then_do f g s = (case f s of (None, s') \<Rightarrow> g s' | (Some e, s') \<Rightarrow> (Some e, s'))"

text \<open>Calls of \<^verbatim>\<open>session.run\<close> one after the other.\<close>

definition run_all :: "stmt list \<Rightarrow> state \<Rightarrow> outcome" where
  "run_all qs s = (None, fold session_run qs s)"

section \<open>The importer\<close>

definition protein_anchor :: "string \<times> props" where
  "protein_anchor = (''Protein'', [(''id_protein'', VStr ''Q9Y261'')])"

subsection \<open>\<^verbatim>\<open>insert_protein\<close>\<close>

definition insert_protein :: "state \<Rightarrow> outcome" where
  "insert_protein =
     sub_importer Protein (run_all [CreateNode ''Protein'' [(''id_protein'', VStr ''Q9Y261'')]])"

subsection \<open>\<^verbatim>\<open>insert_gene\<close>\<close>

text \<open>
  The condition of the \<^verbatim>\<open>if\<close>:
  \<^verbatim>\<open>(gene['@type'] == 'synonym' and gene['#text'] == 'HNF3B') or
   (gene['@type'] == 'primary' and gene['#text'] == 'FOXA2')\<close>,
  with \<^verbatim>\<open>and\<close> and \<^verbatim>\<open>or\<close> evaluating their right operand only when needed.
\<close>

definition gene_conj :: "val \<Rightarrow> string \<Rightarrow> string \<Rightarrow> py_error + bool" where
  "gene_conj gene ty txt =
     bind_e (getitem gene ''@type'') (\<lambda>t.
       if t = VStr ty then bind_e (getitem gene ''#text'') (\<lambda>x. Inr (x = VStr txt))
       else Inr False)"

definition gene_pred :: "val \<Rightarrow> py_error + bool" where
  "gene_pred gene =
     bind_e (gene_conj gene ''synonym'' ''HNF3B'') (\<lambda>b.
       if b then Inr True else gene_conj gene ''primary'' ''FOXA2'')"

definition gene_stmts :: "val \<Rightarrow> stmt list" where
  "gene_stmts name =
     [CreateNode ''Gene'' [(''name'', name)],
      CreateRel ''FROM_GENE'' protein_anchor (''Gene'', [(''name'', name)])]"

definition gene_step :: "val \<Rightarrow> state \<Rightarrow> outcome" where
  "gene_step gene =
     eval_then (gene_pred gene) (\<lambda>b.
       if b then eval_then (getitem gene ''#text'') (\<lambda>name. run_all (gene_stmts name))
       else Pair None)"

definition insert_gene :: "val \<Rightarrow> state \<Rightarrow> outcome" where
  "insert_gene data =
     sub_importer Gene
       (eval_then (bind_e (path data [''uniprot'', ''entry'', ''gene'', ''name'']) py_iter)
          (for_each gene_step))"

subsection \<open>\<^verbatim>\<open>insert_feature\<close>\<close>

definition feature_stmts :: "val \<Rightarrow> val \<Rightarrow> stmt list" where
  "feature_stmts name ty =
     [CreateNode ''Feature'' [(''name'', name), (''type'', ty)],
      CreateRel ''HAS_FEATURE'' protein_anchor (''Feature'', [(''name'', name), (''type'', ty)])]"

text \<open>\<^verbatim>\<open>feature['location'].get('position', {}).get('@position')\<close>\<close>

definition feature_position :: "val \<Rightarrow> py_error + val" where
  "feature_position feature =
     bind_e (getitem feature ''location'') (\<lambda>loc.
     bind_e (py_get loc ''position'' (VDict [])) (\<lambda>pos.
       py_get pos ''@position'' VNone))"

definition feature_step :: "val \<Rightarrow> state \<Rightarrow> outcome" where
  "feature_step feature =
     eval_then (feature_position feature) (\<lambda>p.
       if p = VStr ''307'' then
         eval_then (getitem feature ''@description'') (\<lambda>name.
         eval_then (getitem feature ''@type'') (\<lambda>ty.
           if name = VStr ''Phosphoserine'' \<and> ty = VStr ''modified residue''
           then run_all (feature_stmts name ty)
           else Pair None))
       else Pair None)"

definition insert_feature :: "val \<Rightarrow> state \<Rightarrow> outcome" where
  "insert_feature data =
     sub_importer Feature
       (eval_then (bind_e (path data [''uniprot'', ''entry'', ''feature'']) py_iter)
          (for_each feature_step))"

subsection \<open>\<^verbatim>\<open>insert_author\<close>\<close>

definition author_stmts :: "val \<Rightarrow> val \<Rightarrow> val \<Rightarrow> val \<Rightarrow> stmt list" where
  "author_stmts ident ty author name =
     [CreateNode ''Author'' [(''name'', name)],
      CreateRel ''HAS_AUTHOR''
        (''Reference'', [(''id'', ident), (''type'', ty), (''name'', author)])
        (''Author'', [(''name'', name)])]"

definition person_step :: "val \<Rightarrow> val \<Rightarrow> val \<Rightarrow> val \<Rightarrow> state \<Rightarrow> outcome" where
  "person_step ident ty author person =
     eval_then (getitem person ''@name'') (\<lambda>name. run_all (author_stmts ident ty author name))"

definition insert_author :: "val \<Rightarrow> val \<Rightarrow> val \<Rightarrow> val \<Rightarrow> state \<Rightarrow> outcome" where
  "insert_author authorList ident ty author =
     sub_importer Author
       (eval_then (py_contains ''person'' authorList) (\<lambda>b.
          if b then
            eval_then (bind_e (getitem authorList ''person'') py_iter)
              (for_each (person_step ident ty author))
          else Pair None))"

subsection \<open>\<^verbatim>\<open>insert_reference\<close>\<close>

definition reference_stmts :: "val \<Rightarrow> val \<Rightarrow> val \<Rightarrow> stmt list" where
  "reference_stmts ident ty name =
     [CreateNode ''Reference'' [(''id'', ident), (''type'', ty), (''name'', name)],
      CreateRel ''HAS_REFERENCE'' protein_anchor
        (''Reference'', [(''id'', ident), (''type'', ty), (''name'', name)])]"

text \<open>
  \<^verbatim>\<open>
  id = ""
  if '@key' in reference:
      id = reference['@key']
  \<close>
\<close>

definition reference_id :: "val \<Rightarrow> py_error + val" where
  "reference_id reference =
     bind_e (py_contains ''@key'' reference) (\<lambda>b.
       if b then getitem reference ''@key'' else Inr (VStr ''''))"

text \<open>
  \<^verbatim>\<open>
  x = ""
  if reference.get('citation', {}).get(k) is not None:
      x = reference['citation'][k]
  \<close>
\<close>

definition citation_field :: "val \<Rightarrow> string \<Rightarrow> py_error + val" where
  "citation_field reference k =
     bind_e (py_get reference ''citation'' (VDict [])) (\<lambda>c.
     bind_e (py_get c k VNone) (\<lambda>x.
       if x \<noteq> VNone then path reference [''citation'', k] else Inr (VStr '''')))"

definition reference_step :: "val \<Rightarrow> state \<Rightarrow> outcome" where
  "reference_step reference =
     eval_then (reference_id reference) (\<lambda>ident.
     eval_then (citation_field reference ''@type'') (\<lambda>ty.
     eval_then (citation_field reference ''@name'') (\<lambda>name.
       then_do (run_all (reference_stmts ident ty name))
         (eval_then (bind_e (getitem reference ''citation'') (py_contains ''authorList'')) (\<lambda>b.
            if b then
              eval_then (path reference [''citation'', ''authorList'']) (\<lambda>authorList.
                insert_author authorList ident ty name)
            else Pair None)))))"

definition insert_reference :: "val \<Rightarrow> state \<Rightarrow> outcome" where
  "insert_reference data =
     sub_importer Reference
       (eval_then (bind_e (path data [''uniprot'', ''entry'', ''reference'']) py_iter)
          (for_each reference_step))"

subsection \<open>\<^verbatim>\<open>insert_fullname\<close>\<close>

definition fullname_stmts :: "val \<Rightarrow> stmt list" where
  "fullname_stmts name =
     [CreateNode ''FullName'' [(''name'', name)],
      CreateRel ''HAS_FULL_NAME'' protein_anchor (''FullName'', [(''name'', name)])]"

definition fullname_path :: "string list" where
  "fullname_path = [''uniprot'', ''entry'', ''protein'', ''recommendedName'', ''fullName'']"

definition insert_fullname :: "val \<Rightarrow> state \<Rightarrow> outcome" where
  "insert_fullname data =
     sub_importer FullName
       (eval_then (path data fullname_path) (\<lambda>v.
          if v = VStr ''Hepatocyte nuclear factor 3-beta'' then
            eval_then (path data fullname_path) (\<lambda>name. run_all (fullname_stmts name))
          else Pair None))"

subsection \<open>\<^verbatim>\<open>insert_organism\<close>\<close>

definition organism_stmts :: "val \<Rightarrow> val \<Rightarrow> stmt list" where
  "organism_stmts name taxonomy_id =
     [CreateNode ''Organism'' [(''name'', name), (''taxonomy_id'', taxonomy_id)],
      CreateRel ''IN_ORGANISM'' protein_anchor
        (''Organism'', [(''name'', name), (''taxonomy_id'', taxonomy_id)])]"

definition organism_step :: "val \<Rightarrow> state \<Rightarrow> outcome" where
  "organism_step organism =
     eval_then (getitem organism ''#text'') (\<lambda>t.
       if t = VStr ''Homo sapiens'' then
         eval_then (getitem organism ''#text'') (\<lambda>name.
           run_all (organism_stmts name (VStr ''9606'')))
       else Pair None)"

definition insert_organism :: "val \<Rightarrow> state \<Rightarrow> outcome" where
  "insert_organism data =
     sub_importer Organism
       (eval_then (bind_e (path data [''uniprot'', ''entry'', ''organism'', ''name'']) py_iter)
          (for_each organism_step))"

subsection \<open>\<^verbatim>\<open>run\<close>\<close>

text \<open>\<open>data\<close> is what \<^verbatim>\<open>load_file\<close> has parsed.\<close>

definition run :: "val \<Rightarrow> state \<Rightarrow> outcome" where
  "run data =
     then_do insert_protein
    (then_do (insert_gene data)
    (then_do (insert_feature data)
    (then_do (insert_reference data)
    (then_do (insert_fullname data)
             (insert_organism data)))))"

section \<open>The graph store\<close>

text \<open>
  Modelled from the spec: the graph store is outside the repository; the importer only
  hands it the statements above. The store here does what the two statement forms say:
  \<^verbatim>\<open>CREATE\<close> of a node always adds one node with the given label and properties, and
  the relationship statement matches nodes by label and by the listed properties and
  adds one edge for every pair of an anchor match and a dependent match (none when
  either side has no match). Nodes are numbered in creation order; an edge is its type
  with the numbers of its end points.
\<close>

record graph =
  nodes :: "(string \<times> props) list"
  edges :: "(string \<times> nat \<times> nat) list"

definition empty_graph :: graph where
  "empty_graph = \<lparr>nodes = [], edges = []\<rparr>"

definition node_matches :: "string \<times> props \<Rightarrow> string \<times> props \<Rightarrow> bool" where
  "node_matches pat n =
     (fst n = fst pat \<and> list_all (\<lambda>kv. map_of (snd n) (fst kv) = Some (snd kv)) (snd pat))"

definition matching :: "string \<times> props \<Rightarrow> graph \<Rightarrow> nat list" where
  "matching pat g = filter (\<lambda>i. node_matches pat (nodes g ! i)) [0..<length (nodes g)]"

fun exec :: "stmt \<Rightarrow> graph \<Rightarrow> graph" where
  "exec (CreateNode l ps) g = g\<lparr>nodes := nodes g @ [(l, ps)]\<rparr>"
| "exec (CreateRel r a b) g =
     g\<lparr>edges := edges g @ concat (map (\<lambda>i. map (\<lambda>j. (r, i, j)) (matching b g)) (matching a g))\<rparr>"

definition count_nodes :: "string \<Rightarrow> graph \<Rightarrow> nat" where
  "count_nodes l g = length (filter (\<lambda>n. fst n = l) (nodes g))"

definition count_edges :: "string \<Rightarrow> graph \<Rightarrow> nat" where
  "count_edges r g = length (filter (\<lambda>e. fst e = r) (edges g))"

section \<open>Notions used in the properties\<close>

text \<open>
  A method whose effect on every state is the same: the same exception or none, the same
  statements and calls appended, the same number of drivers left open, and every session
  it opened closed again.
\<close>

definition effect ::
  "(state \<Rightarrow> outcome) \<Rightarrow> py_error option \<Rightarrow> stmt list \<Rightarrow> importer list \<Rightarrow> nat \<Rightarrow> bool" where
  "effect f r out cs d =
     (\<forall>s. f s = (r, s\<lparr>log := log s @ out, calls := calls s @ cs,
                        open_drivers := open_drivers s + d\<rparr>))"

definition regular :: "(state \<Rightarrow> outcome) \<Rightarrow> bool" where
  "regular f = (\<exists>r out cs d. effect f r out cs d)"

text \<open>Statements and calls before, and result, statements and calls after.\<close>

definition hoare ::
  "(stmt list \<Rightarrow> importer list \<Rightarrow> bool) \<Rightarrow> (state \<Rightarrow> outcome) \<Rightarrow>
   (py_error option \<Rightarrow> stmt list \<Rightarrow> importer list \<Rightarrow> bool) \<Rightarrow> bool" where
  "hoare P f Q =
     (\<forall>s. P (log s) (calls s) \<longrightarrow> Q (fst (f s)) (log (snd (f s))) (calls (snd (f s))))"

text \<open>A statement that creates a node with label \<open>l\<close>.\<close>

fun creates :: "string \<Rightarrow> stmt \<Rightarrow> bool" where
  "creates l (CreateNode l' ps) = (l' = l)"
| "creates l (CreateRel r a b) = False"

text \<open>A statement that asks for a relationship of type \<open>r\<close>.\<close>

fun relates :: "string \<Rightarrow> stmt \<Rightarrow> bool" where
  "relates r (CreateNode l ps) = False"
| "relates r (CreateRel r' a b) = (r' = r)"

text \<open>A property of the statements issued so far that a method keeps, raising or not.\<close>

definition keeps :: "(stmt list \<Rightarrow> bool) \<Rightarrow> (state \<Rightarrow> outcome) \<Rightarrow> bool" where
  "keeps I f = hoare (\<lambda>l c. I l) f (\<lambda>r l c. I l)"

text \<open>
  Every relationship statement in the list comes after a node-creation statement for
  each of its two end points, with the same label and the same properties.
\<close>

definition endpoints_first :: "stmt list \<Rightarrow> bool" where
  "endpoints_first l =
     list_all (\<lambda>i. case l ! i of
                 CreateNode lb ps \<Rightarrow> True
               | CreateRel r a b \<Rightarrow>
                   CreateNode (fst a) (snd a) \<in> set (take i l) \<and>
                   CreateNode (fst b) (snd b) \<in> set (take i l))
       [0..<length l]"

definition anchored :: "stmt list \<Rightarrow> bool" where
  "anchored l = (endpoints_first l \<and> CreateNode (fst protein_anchor) (snd protein_anchor) \<in> set l)"

text \<open>A piece of a method that enters no method.\<close>

definition quiet :: "(state \<Rightarrow> outcome) \<Rightarrow> bool" where
  "quiet f = (\<forall>s. calls (snd (f s)) = calls s)"

text \<open>The test \<^verbatim>\<open>'authorList' in reference['citation']\<close> of \<^verbatim>\<open>insert_reference\<close> holds.\<close>

definition has_author_list :: "val \<Rightarrow> bool" where
  "has_author_list reference =
     (bind_e (getitem reference ''citation'') (py_contains ''authorList'') = Inr True)"

text \<open>An element that is a dict with the key \<open>k\<close>.\<close>

definition has_key :: "string \<Rightarrow> val \<Rightarrow> bool" where
  "has_key k v = (case v of VDict kvs \<Rightarrow> map_of kvs k \<noteq> None | _ \<Rightarrow> False)"


section \<open>What the reference import is to issue\<close>

text \<open>
  The key properties of a reference as described: the \<^verbatim>\<open>'@key'\<close> of the element and
  the \<^verbatim>\<open>'@type'\<close> and \<^verbatim>\<open>'@name'\<close> of its citation, each the empty string when absent.
\<close>

definition spec_reference_id :: "val \<Rightarrow> val" where
  "spec_reference_id reference =
     (case getitem reference ''@key'' of Inl e \<Rightarrow> VStr '''' | Inr v \<Rightarrow> v)"

definition spec_citation_field :: "val \<Rightarrow> string \<Rightarrow> val" where
  "spec_citation_field reference k =
     (case path reference [''citation'', k] of
        Inl e \<Rightarrow> VStr ''''
      | Inr v \<Rightarrow> if v = VNone then VStr '''' else v)"

definition spec_reference_key :: "val \<Rightarrow> props" where
  "spec_reference_key reference =
     [(''id'', spec_reference_id reference),
      (''type'', spec_citation_field reference ''@type''),
      (''name'', spec_citation_field reference ''@name'')]"

text \<open>A reference element: a dict whose citation, when it has one, is a dict.\<close>

definition citation_absent_or_dict :: "val \<Rightarrow> bool" where
  "citation_absent_or_dict reference =
     (case reference of
        VDict kvs \<Rightarrow>
          (case map_of kvs ''citation'' of
             None \<Rightarrow> True
           | Some c \<Rightarrow> (case c of VDict cs \<Rightarrow> True | _ \<Rightarrow> False))
      | _ \<Rightarrow> False)"

section \<open>A reference whose import completes\<close>

text \<open>
  An author list that \<^verbatim>\<open>insert_author\<close> goes through: a dict whose persons, when it
  has any, are a list of dicts with a name.
\<close>

definition author_list_ok :: "val \<Rightarrow> bool" where
  "author_list_ok al =
     (case al of
        VDict kvs \<Rightarrow>
          (case map_of kvs ''person'' of
             None \<Rightarrow> True
           | Some ps \<Rightarrow> (case ps of VList xs \<Rightarrow> list_all (has_key ''@name'') xs | _ \<Rightarrow> False))
      | _ \<Rightarrow> False)"

text \<open>
  A reference element the loop of \<^verbatim>\<open>insert_reference\<close> goes through: a dict whose
  citation is a dict and whose author list, when the citation has one, is as above.
\<close>

definition reference_ok :: "val \<Rightarrow> bool" where
  "reference_ok reference =
     (case getitem reference ''citation'' of
        Inl e \<Rightarrow> False
      | Inr c \<Rightarrow>
          (case c of
             VDict cs \<Rightarrow>
               (case map_of cs ''authorList'' of None \<Rightarrow> True | Some al \<Rightarrow> author_list_ok al)
           | _ \<Rightarrow> False))"

text \<open>The persons of a reference's author list, when they are a list.\<close>

definition spec_persons :: "val \<Rightarrow> val list" where
  "spec_persons reference =
     (case path reference [''citation'', ''authorList'', ''person''] of
        Inl e \<Rightarrow> []
      | Inr ps \<Rightarrow> (case ps of VList xs \<Rightarrow> xs | _ \<Rightarrow> []))"

text \<open>
  The statements for one author of a reference with the key properties \<open>key\<close>, and the
  statements for a reference with its authors.
\<close>

definition spec_author_stmts :: "props \<Rightarrow> val \<Rightarrow> stmt list" where
  "spec_author_stmts key p =
     [CreateNode ''Author'' [(''name'', projr (getitem p ''@name''))],
      CreateRel ''HAS_AUTHOR'' (''Reference'', key)
        (''Author'', [(''name'', projr (getitem p ''@name''))])]"

definition spec_reference_block :: "val \<Rightarrow> stmt list" where
  "spec_reference_block reference =
     [CreateNode ''Reference'' (spec_reference_key reference),
      CreateRel ''HAS_REFERENCE'' (''Protein'', [(''id_protein'', VStr ''Q9Y261'')])
        (''Reference'', spec_reference_key reference)] @
     concat (map (spec_author_stmts (spec_reference_key reference)) (spec_persons reference))"

section \<open>What the gene import is to select\<close>

text \<open>A gene name element of the expected shape: a dict with a type and a text.\<close>

definition gene_shaped :: "val \<Rightarrow> bool" where
  "gene_shaped gene = (has_key ''@type'' gene \<and> has_key ''#text'' gene)"

text \<open>The selection as described: type synonym with text HNF3B, or type primary with text FOXA2.\<close>

definition spec_gene_selected :: "val \<Rightarrow> bool" where
  "spec_gene_selected gene =
     (getitem gene ''@type'' = Inr (VStr ''synonym'') \<and> getitem gene ''#text'' = Inr (VStr ''HNF3B'')
      \<or> getitem gene ''@type'' = Inr (VStr ''primary'') \<and> getitem gene ''#text'' = Inr (VStr ''FOXA2''))"

text \<open>The store after the protein import and the gene import, run on the empty store.\<close>

definition genes_imported :: "val \<Rightarrow> graph" where
  "genes_imported data =
     fold exec (log (snd (then_do insert_protein (insert_gene data) init))) empty_graph"

section \<open>Documents used as examples\<close>

text \<open>
  An entry of the expected shape: three gene names, two features, two references (the
  first with two authors, the second by a consortium), the recommended full name and
  two organism names.
\<close>

definition sample_genes :: "val list" where
  "sample_genes =
     [VDict [(''@type'', VStr ''synonym''), (''#text'', VStr ''HNF3B'')],
      VDict [(''@type'', VStr ''primary''), (''#text'', VStr ''FOXA2'')],
      VDict [(''@type'', VStr ''synonym''), (''#text'', VStr ''TCF3B'')]]"

definition sample_features :: "val list" where
  "sample_features =
     [VDict [(''@type'', VStr ''modified residue''), (''@description'', VStr ''Phosphoserine''),
             (''location'', VDict [(''position'', VDict [(''@position'', VStr ''307'')])])],
      VDict [(''@type'', VStr ''chain''), (''@description'', VStr ''Hepatocyte nuclear factor 3-beta''),
             (''location'', VDict [(''begin'', VDict [(''@position'', VStr ''1'')]),
                                   (''end'', VDict [(''@position'', VStr ''457'')])])]]"

definition sample_references :: "val list" where
  "sample_references =
     [VDict [(''@key'', VStr ''1''),
             (''citation'', VDict [(''@type'', VStr ''journal article''), (''@name'', VStr ''Genomics''),
                (''authorList'', VDict [(''person'',
                   VList [VDict [(''@name'', VStr ''Yamada S.'')],
                          VDict [(''@name'', VStr ''Zhu Q.'')]])])])],
      VDict [(''@key'', VStr ''2''),
             (''citation'', VDict [(''@type'', VStr ''submission''),
                (''authorList'', VDict [(''consortium'', VDict [(''@name'', VStr ''NIEHS SNPs program'')])])])]]"

definition sample_organisms :: "val list" where
  "sample_organisms =
     [VDict [(''@type'', VStr ''scientific''), (''#text'', VStr ''Homo sapiens'')],
      VDict [(''@type'', VStr ''common''), (''#text'', VStr ''Human'')]]"

definition sample_doc :: val where
  "sample_doc =
     VDict [(''uniprot'', VDict [(''entry'', VDict
       [(''protein'', VDict [(''recommendedName'',
           VDict [(''fullName'', VStr ''Hepatocyte nuclear factor 3-beta'')])]),
        (''gene'', VDict [(''name'', VList sample_genes)]),
        (''organism'', VDict [(''name'', VList sample_organisms)]),
        (''reference'', VList sample_references),
        (''feature'', VList sample_features)])])]"

text \<open>The statements the run on the sample entry issues.\<close>

definition sample_log :: "stmt list" where
  "sample_log =
     [CreateNode ''Protein'' [(''id_protein'', VStr ''Q9Y261'')]] @
     gene_stmts (VStr ''HNF3B'') @ gene_stmts (VStr ''FOXA2'') @
     feature_stmts (VStr ''Phosphoserine'') (VStr ''modified residue'') @
     reference_stmts (VStr ''1'') (VStr ''journal article'') (VStr ''Genomics'') @
     author_stmts (VStr ''1'') (VStr ''journal article'') (VStr ''Genomics'') (VStr ''Yamada S.'') @
     author_stmts (VStr ''1'') (VStr ''journal article'') (VStr ''Genomics'') (VStr ''Zhu Q.'') @
     reference_stmts (VStr ''2'') (VStr ''submission'') (VStr '''') @
     fullname_stmts (VStr ''Hepatocyte nuclear factor 3-beta'') @
     organism_stmts (VStr ''Homo sapiens'') (VStr ''9606'')"

text \<open>An entry with a single gene name: the parser gives the one element as a dict.\<close>

definition one_gene_doc :: val where
  "one_gene_doc =
     VDict [(''uniprot'', VDict [(''entry'', VDict [(''gene'', VDict [(''name'',
       VDict [(''@type'', VStr ''primary''), (''#text'', VStr ''FOXA2'')])])])])]"

text \<open>The same single gene name, given as a list of one element.\<close>

definition one_gene_list_doc :: val where
  "one_gene_list_doc =
     VDict [(''uniprot'', VDict [(''entry'', VDict [(''gene'', VDict [(''name'',
       VList [VDict [(''@type'', VStr ''primary''), (''#text'', VStr ''FOXA2'')]])])])])]"

text \<open>An author list with a single person, as a dict and as a list of one element.\<close>

definition one_person :: val where
  "one_person = VDict [(''person'', VDict [(''@name'', VStr ''Yamada S.'')])]"

definition one_person_list :: val where
  "one_person_list = VDict [(''person'', VList [VDict [(''@name'', VStr ''Yamada S.'')]])]"

text \<open>An entry in which the same synonym is listed twice.\<close>

definition twin_genes :: "val list" where
  "twin_genes =
     [VDict [(''@type'', VStr ''synonym''), (''#text'', VStr ''HNF3B'')],
      VDict [(''@type'', VStr ''synonym''), (''#text'', VStr ''HNF3B'')]]"

definition twin_gene_doc :: val where
  "twin_gene_doc =
     VDict [(''uniprot'', VDict [(''entry'', VDict [(''gene'', VDict [(''name'', VList twin_genes)])])])]"


text \<open>A reference without \<^verbatim>\<open>'@key'\<close> whose citation has neither type nor name nor authors.\<close>

definition bare_reference :: val where
  "bare_reference = VDict [(''citation'', VDict [(''title'', VStr ''Untitled'')])]"

text \<open>
  Two references, the first with a single author: the parser gives the one person as a
  dict, not as a list.
\<close>

definition lone_person_references :: "val list" where
  "lone_person_references =
     [VDict [(''@key'', VStr ''1''),
             (''citation'', VDict [(''@type'', VStr ''journal article''), (''@name'', VStr ''Genomics''),
                (''authorList'', VDict [(''person'', VDict [(''@name'', VStr ''Yamada S.'')])])])],
      VDict [(''@key'', VStr ''2''), (''citation'', VDict [(''@type'', VStr ''submission'')])]]"

definition lone_person_doc :: val where
  "lone_person_doc =
     VDict [(''uniprot'', VDict [(''entry'', VDict [(''reference'', VList lone_person_references)])])]"

text \<open>Two references, the first with an empty citation element, which the parser gives as \<^verbatim>\<open>None\<close>.\<close>

definition empty_citation_doc :: val where
  "empty_citation_doc =
     VDict [(''uniprot'', VDict [(''entry'', VDict [(''reference'',
       VList [VDict [(''@key'', VStr ''1''), (''citation'', VNone)],
              VDict [(''@key'', VStr ''2''), (''citation'', VDict [(''@type'', VStr ''submission'')])]])])])]"



text \<open>An entry with one child element \<open>k\<close>, and elements to put there.\<close>

definition entry_with :: "string \<Rightarrow> val \<Rightarrow> val" where
  "entry_with k v = VDict [(''uniprot'', VDict [(''entry'', VDict [(k, v)])])]"

definition phospho_feature :: val where
  "phospho_feature =
     VDict [(''@type'', VStr ''modified residue''), (''@description'', VStr ''Phosphoserine''),
            (''location'', VDict [(''position'', VDict [(''@position'', VStr ''307'')])])]"

definition homo_name :: val where
  "homo_name = VDict [(''@type'', VStr ''scientific''), (''#text'', VStr ''Homo sapiens'')]"

definition keyed_reference :: val where
  "keyed_reference = VDict [(''@key'', VStr ''1''), (''citation'', VDict [(''@type'', VStr ''submission'')])]"

definition unkeyed_reference :: val where
  "unkeyed_reference = VDict [(''citation'', VDict [(''@type'', VStr ''submission'')])]"

section \<open>Properties of the frame\<close>

lemma run_all_eq: "run_all qs s = (None, s\<lparr>log := log s @ qs\<rparr>)"
proof -
  have "fold session_run qs s = s\<lparr>log := log s @ qs\<rparr>"
    by (induction qs arbitrary: s) (simp_all add: session_run_def)
  then show ?thesis by (simp add: run_all_def)
qed

lemma eval_then_Inr: "eval_then (Inr v) k = k v"
  by (simp add: eval_then_def fun_eq_iff)

lemma eval_then_Inl: "eval_then (Inl e) k = Pair (Some e)"
  by (simp add: eval_then_def fun_eq_iff)

lemma bind_e_Inr: "bind_e (Inr v) k = k v"
  by (simp add: bind_e_def)

lemma bind_e_Inl: "bind_e (Inl e) k = Inl e"
  by (simp add: bind_e_def)

lemma for_each_append:
  "for_each f (xs @ ys) s =
     (case for_each f xs s of (None, s') \<Rightarrow> for_each f ys s' | (Some e, s') \<Rightarrow> (Some e, s'))"
  by (induction xs arbitrary: s) (auto split: prod.splits option.splits)

lemma regularI: "effect f r out cs d \<Longrightarrow> regular f"
  unfolding regular_def by blast

lemma regular_skip: "regular (Pair None)"
  by (rule regularI[of _ None "[]" "[]" 0]) (simp add: effect_def)

lemma regular_run_all: "regular (run_all qs)"
  by (rule regularI[of _ None qs "[]" 0]) (simp add: effect_def run_all_eq)

lemma regular_eval_then:
  assumes "\<And>v. m = Inr v \<Longrightarrow> regular (k v)"
  shows "regular (eval_then m k)"
proof (cases m)
  case (Inl e)
  then have "effect (eval_then m k) (Some e) [] [] 0"
    by (simp add: effect_def eval_then_def)
  then show ?thesis by (rule regularI)
next
  case (Inr v)
  then have "eval_then m k = k v"
    by (simp add: eval_then_def fun_eq_iff)
  with assms[OF Inr] show ?thesis by simp
qed

lemma regular_if: "regular f \<Longrightarrow> regular g \<Longrightarrow> regular (if b then f else g)"
  by simp

lemma regular_then_do:
  assumes "regular f" and "regular g"
  shows "regular (then_do f g)"
proof -
  obtain r out cs d where f: "effect f r out cs d"
    using assms(1) unfolding regular_def by blast
  obtain r' out' cs' d' where g: "effect g r' out' cs' d'"
    using assms(2) unfolding regular_def by blast
  show ?thesis
  proof (cases r)
    case None
    with f g have "effect (then_do f g) r' (out @ out') (cs @ cs') (d + d')"
      by (simp add: effect_def then_do_def add.assoc)
    then show ?thesis by (rule regularI)
  next
    case (Some e)
    with f have "effect (then_do f g) (Some e) out cs d"
      by (simp add: effect_def then_do_def)
    then show ?thesis by (rule regularI)
  qed
qed

lemma for_each_Cons_then_do: "for_each f (x # xs) = then_do (f x) (for_each f xs)"
  by (simp add: then_do_def fun_eq_iff)

lemma regular_for_each:
  assumes "\<And>x. regular (f x)"
  shows "regular (for_each f xs)"
proof (induction xs)
  case Nil
  have "effect (for_each f []) None [] [] 0"
    by (simp add: effect_def)
  then show ?case by (rule regularI)
next
  case (Cons x xs)
  then show ?case
    unfolding for_each_Cons_then_do by (intro regular_then_do assms)
qed

lemma effect_with_session:
  assumes "effect body r out cs d"
  shows "effect (with_session body) r out cs d"
  using assms by (simp add: effect_def with_session_def)

lemma effect_sub_importer:
  assumes "effect body r out cs d"
  shows "effect (sub_importer nm body) r out (nm # cs) (if r = None then d else Suc d)"
  using effect_with_session[OF assms]
  by (cases r) (simp_all add: effect_def sub_importer_def open_database_def close_database_def)

lemma regular_sub_importer: "regular body \<Longrightarrow> regular (sub_importer nm body)"
  unfolding regular_def using effect_sub_importer by blast

lemmas regular_intros = regular_skip regular_run_all regular_eval_then regular_if
  regular_then_do regular_for_each regular_sub_importer

lemma regular_insert_author: "regular (insert_author al i t a)"
  unfolding insert_author_def person_step_def by (intro regular_intros)

lemma regular_insert_protein: "regular insert_protein"
  unfolding insert_protein_def by (intro regular_intros)

lemma regular_insert_gene: "regular (insert_gene data)"
  unfolding insert_gene_def gene_step_def by (intro regular_intros)

lemma regular_insert_feature: "regular (insert_feature data)"
  unfolding insert_feature_def feature_step_def by (intro regular_intros)

lemma regular_insert_reference: "regular (insert_reference data)"
  unfolding insert_reference_def reference_step_def 
  by (intro regular_intros regular_insert_author)

lemma regular_insert_fullname: "regular (insert_fullname data)"
  unfolding insert_fullname_def by (intro regular_intros)

lemma regular_insert_organism: "regular (insert_organism data)"
  unfolding insert_organism_def organism_step_def by (intro regular_intros)

lemma regular_run: "regular (run data)"
  unfolding run_def
  by (intro regular_then_do regular_insert_protein regular_insert_gene regular_insert_feature
      regular_insert_reference regular_insert_fullname regular_insert_organism)

section \<open>Every method acts the same way on every state\<close>

lemma count_nodes_exec:
  "count_nodes l (exec q g) = count_nodes l g + (if creates l q then 1 else 0)"
  by (cases q) (simp_all add: count_nodes_def)

lemma count_nodes_fold_exec:
  "count_nodes l (fold exec qs g) = count_nodes l g + length (filter (creates l) qs)"
  by (induction qs arbitrary: g) (simp_all add: count_nodes_exec)

lemma run_log_appends:
  "log (snd (run data s)) = log s @ log (snd (run data init))"
proof -
  obtain r out cs d where "effect (run data) r out cs d"
    using regular_run unfolding regular_def by blast
  then have "\<And>s. log (snd (run data s)) = log s @ out"
    by (simp add: effect_def)
  then show ?thesis by (simp add: init_def)
qed

lemma sessions_released:
  assumes "regular f"
  shows "open_sessions (snd (f s)) = open_sessions s"
proof -
  obtain r out cs d where "effect f r out cs d"
    using assms unfolding regular_def by blast
  then show ?thesis by (simp add: effect_def)
qed

lemma run_releases_sessions: "open_sessions (snd (run data s)) = open_sessions s"
  by (rule sessions_released) (rule regular_run)

lemma insert_gene_releases_sessions: "open_sessions (snd (insert_gene data s)) = open_sessions s"
  by (rule sessions_released) (rule regular_insert_gene)

section \<open>Running the pipeline twice\<close>

text \<open>
  C5. A node-creation statement adds a node whatever the store holds, and a second run
  on the same document issues the statements of the first run once more: for every
  label \<open>l\<close> and every store \<open>g\<close>, one run adds as many nodes with label \<open>l\<close> as it
  issues node-creation statements for \<open>l\<close>, and two runs add twice that number.
\<close>

theorem rerun_doubles_node_count:
  "let once = log (snd (run data init));
       twice = log (snd (run data (snd (run data init))))
   in twice = once @ once \<and>
      count_nodes l (fold exec once g) = count_nodes l g + length (filter (creates l) once) \<and>
      count_nodes l (fold exec twice g) = count_nodes l g + 2 * length (filter (creates l) once)"
proof -
  have "log (snd (run data (snd (run data init)))) =
        log (snd (run data init)) @ log (snd (run data init))"
    by (rule run_log_appends)
  then show ?thesis
    by (simp add: Let_def count_nodes_fold_exec)
qed

section \<open>Sessions and drivers\<close>

text \<open>
  C8. On the document with a single gene name, \<^verbatim>\<open>insert_gene\<close> iterates over the keys
  of the dict and \<^verbatim>\<open>gene['@type']\<close> raises a \<^verbatim>\<open>TypeError\<close>. The session opened by the
  \<^verbatim>\<open>with\<close> block is closed, but \<^verbatim>\<open>close_database\<close> is not reached: the driver the
  method opened stays open.
\<close>

theorem driver_left_open_on_failure:
  "insert_gene one_gene_doc init =
     (Some TypeError, init\<lparr>calls := [Gene], open_drivers := 1\<rparr>)"
  by (simp add: insert_gene_def one_gene_doc_def sub_importer_def with_session_def
      open_database_def eval_then_def bind_e_def gene_step_def gene_pred_def gene_conj_def
      init_def)

section \<open>Rules for statements and calls before and after\<close>

lemma hoareI:
  "(\<And>s. P (log s) (calls s) \<Longrightarrow> Q (fst (f s)) (log (snd (f s))) (calls (snd (f s)))) \<Longrightarrow> hoare P f Q"
  by (simp add: hoare_def)

lemma hoareD:
  "hoare P f Q \<Longrightarrow> P (log s) (calls s) \<Longrightarrow> Q (fst (f s)) (log (snd (f s))) (calls (snd (f s)))"
  by (simp add: hoare_def)

lemma hoare_conseq:
  assumes "hoare P f Q" and "\<And>l c. P' l c \<Longrightarrow> P l c" and "\<And>r l c. Q r l c \<Longrightarrow> Q' r l c"
  shows "hoare P' f Q'"
  using assms unfolding hoare_def by blast

lemma hoare_skip:
  assumes "\<And>l c. P l c \<Longrightarrow> Q None l c"
  shows "hoare P (Pair None) Q"
  using assms by (simp add: hoare_def)

lemma hoare_run_all:
  assumes "\<And>l c. P l c \<Longrightarrow> Q None (l @ qs) c"
  shows "hoare P (run_all qs) Q"
  using assms by (simp add: hoare_def run_all_eq)

lemma hoare_eval_then:
  assumes "\<And>e l c. m = Inl e \<Longrightarrow> P l c \<Longrightarrow> Q (Some e) l c"
    and "\<And>v. m = Inr v \<Longrightarrow> hoare P (k v) Q"
  shows "hoare P (eval_then m k) Q"
  using assms unfolding hoare_def eval_then_def by (cases m) simp_all

lemma hoare_then_do:
  assumes f: "hoare P f R" and g: "hoare (R None) g Q"
    and err: "\<And>e l c. R (Some e) l c \<Longrightarrow> Q (Some e) l c"
  shows "hoare P (then_do f g) Q"
proof (rule hoareI)
  fix s :: state assume P: "P (log s) (calls s)"
  obtain r s' where fs: "f s = (r, s')" by (cases "f s")
  from hoareD[OF f P] fs have R: "R r (log s') (calls s')" by simp
  show "Q (fst (then_do f g s)) (log (snd (then_do f g s))) (calls (snd (then_do f g s)))"
  proof (cases r)
    case None
    with fs have "then_do f g s = g s'" by (simp add: then_do_def)
    with hoareD[OF g, of s'] R None show ?thesis by simp
  next
    case (Some e)
    with fs have "then_do f g s = (Some e, s')" by (simp add: then_do_def)
    with err R Some show ?thesis by simp
  qed
qed

lemma hoare_for_each:
  assumes step: "\<And>x. x \<in> set xs \<Longrightarrow> hoare I (f x) (\<lambda>r l c. case r of None \<Rightarrow> I l c | Some e \<Rightarrow> Q (Some e) l c)"
    and fin: "\<And>l c. I l c \<Longrightarrow> Q None l c"
  shows "hoare I (for_each f xs) Q"
  using step
proof (induction xs)
  case Nil
  show ?case using fin by (simp add: hoare_def)
next
  case (Cons x xs)
  have "hoare I (then_do (f x) (for_each f xs)) Q"
  proof (rule hoare_then_do)
    show "hoare I (f x) (\<lambda>r l c. case r of None \<Rightarrow> I l c | Some e \<Rightarrow> Q (Some e) l c)"
      using Cons.prems by simp
    show "hoare (\<lambda>l c. case None of None \<Rightarrow> I l c | Some e \<Rightarrow> Q (Some e) l c) (for_each f xs) Q"
      using Cons by simp
  qed simp
  then show ?case by (simp only: for_each_Cons_then_do)
qed

lemma with_session_proj:
  "fst (with_session body s) = fst (body (s\<lparr>open_sessions := Suc (open_sessions s)\<rparr>))"
  "log (snd (with_session body s)) = log (snd (body (s\<lparr>open_sessions := Suc (open_sessions s)\<rparr>)))"
  "calls (snd (with_session body s)) = calls (snd (body (s\<lparr>open_sessions := Suc (open_sessions s)\<rparr>)))"
  by (simp_all add: with_session_def split_beta)

lemma sub_importer_proj:
  "fst (sub_importer nm body s) = fst (with_session body (open_database (s\<lparr>calls := calls s @ [nm]\<rparr>)))"
  "log (snd (sub_importer nm body s)) = log (snd (with_session body (open_database (s\<lparr>calls := calls s @ [nm]\<rparr>))))"
  "calls (snd (sub_importer nm body s)) = calls (snd (with_session body (open_database (s\<lparr>calls := calls s @ [nm]\<rparr>))))"
  by (simp_all add: sub_importer_def close_database_def split: prod.splits option.splits)

lemma hoare_with_session:
  assumes "hoare P body Q"
  shows "hoare P (with_session body) Q"
proof (rule hoareI)
  fix s :: state assume P: "P (log s) (calls s)"
  let ?s1 = "s\<lparr>open_sessions := Suc (open_sessions s)\<rparr>"
  from P have "P (log ?s1) (calls ?s1)" by simp
  from hoareD[OF assms this]
  show "Q (fst (with_session body s)) (log (snd (with_session body s)))
          (calls (snd (with_session body s)))"
    by (simp only: with_session_proj)
qed

lemma hoare_sub_importer:
  assumes "hoare (\<lambda>l c. \<exists>c'. c = c' @ [nm] \<and> P l c') body Q"
  shows "hoare P (sub_importer nm body) Q"
proof (rule hoareI)
  fix s :: state assume P: "P (log s) (calls s)"
  let ?s1 = "open_database (s\<lparr>calls := calls s @ [nm]\<rparr>)"
  from P have "\<exists>c'. calls ?s1 = c' @ [nm] \<and> P (log ?s1) c'"
    by (simp add: open_database_def)
  from hoareD[OF hoare_with_session[OF assms], of ?s1, OF this]
  show "Q (fst (sub_importer nm body s)) (log (snd (sub_importer nm body s)))
          (calls (snd (sub_importer nm body s)))"
    by (simp only: sub_importer_proj)
qed

section \<open>Relationship statements come after their end points\<close>

lemma keeps_skip: "keeps I (Pair None)"
  unfolding keeps_def by (rule hoare_skip)

lemma keeps_run_all: "(\<And>l. I l \<Longrightarrow> I (l @ qs)) \<Longrightarrow> keeps I (run_all qs)"
  unfolding keeps_def by (rule hoare_run_all)

lemma keeps_eval_then: "(\<And>v. m = Inr v \<Longrightarrow> keeps I (k v)) \<Longrightarrow> keeps I (eval_then m k)"
  unfolding keeps_def by (rule hoare_eval_then)

lemma keeps_if: "(b \<Longrightarrow> keeps I f) \<Longrightarrow> (\<not> b \<Longrightarrow> keeps I g) \<Longrightarrow> keeps I (if b then f else g)"
  by simp

lemma keeps_then_do: "keeps I f \<Longrightarrow> keeps I g \<Longrightarrow> keeps I (then_do f g)"
  unfolding keeps_def by (rule hoare_then_do)

lemma keeps_for_each:
  assumes "\<And>x. keeps I (f x)"
  shows "keeps I (for_each f xs)"
  unfolding keeps_def
proof (rule hoare_for_each)
  fix x
  have "hoare (\<lambda>l c. I l) (f x) (\<lambda>r l c. I l)"
    using assms unfolding keeps_def .
  then show "hoare (\<lambda>l c. I l) (f x) (\<lambda>r l c. case r of None \<Rightarrow> I l | Some e \<Rightarrow> I l)"
    by (rule hoare_conseq) (simp_all split: option.splits)
qed

lemma keeps_sub_importer: "keeps I body \<Longrightarrow> keeps I (sub_importer nm body)"
  unfolding keeps_def
  by (rule hoare_sub_importer) (auto elim: hoare_conseq)

lemma keeps_between:
  assumes "\<And>l. I l \<Longrightarrow> J (l @ qs)" and "keeps J g" and "\<And>l. J l \<Longrightarrow> I l"
  shows "keeps I (then_do (run_all qs) g)"
proof -
  have "hoare (\<lambda>l c. I l) (run_all qs) (\<lambda>r l c. J l)"
    by (rule hoare_run_all) (rule assms(1))
  moreover have "hoare (\<lambda>l c. J l) g (\<lambda>r l c. I l)"
    using assms(2) unfolding keeps_def by (rule hoare_conseq) (auto intro: assms(3))
  ultimately show ?thesis
    unfolding keeps_def by (rule hoare_then_do) (rule assms(3))
qed

lemma endpoints_first_snoc_node:
  assumes "endpoints_first l"
  shows "endpoints_first (l @ [CreateNode lb ps])"
  using assms
  by (auto simp: endpoints_first_def list_all_iff nth_append split: stmt.splits)

lemma endpoints_first_snoc_rel:
  assumes "endpoints_first l"
    and "CreateNode (fst a) (snd a) \<in> set l" and "CreateNode (fst b) (snd b) \<in> set l"
  shows "endpoints_first (l @ [CreateRel r a b])"
  using assms
  by (auto simp: endpoints_first_def list_all_iff nth_append split: stmt.splits)


lemmas keeps_intros = keeps_skip keeps_eval_then keeps_if keeps_then_do keeps_for_each
  keeps_sub_importer

lemma anchored_block:
  assumes "anchored l"
  shows "anchored (l @ [CreateNode lb ps, CreateRel r protein_anchor (lb, ps)])"
proof -
  from assms have "endpoints_first (l @ [CreateNode lb ps])"
    by (simp add: anchored_def endpoints_first_snoc_node)
  then have "endpoints_first ((l @ [CreateNode lb ps]) @ [CreateRel r protein_anchor (lb, ps)])"
    using assms by (intro endpoints_first_snoc_rel) (simp_all add: anchored_def)
  with assms show ?thesis by (simp add: anchored_def)
qed

lemma keeps_anchored_gene: "keeps anchored (insert_gene data)"
  unfolding insert_gene_def gene_step_def
  by (intro keeps_intros keeps_run_all) (simp add: gene_stmts_def anchored_block)

lemma keeps_anchored_feature: "keeps anchored (insert_feature data)"
  unfolding insert_feature_def feature_step_def
  by (intro keeps_intros keeps_run_all) (simp add: feature_stmts_def anchored_block)

lemma keeps_anchored_fullname: "keeps anchored (insert_fullname data)"
  unfolding insert_fullname_def
  by (intro keeps_intros keeps_run_all) (simp add: fullname_stmts_def anchored_block)

lemma keeps_anchored_organism: "keeps anchored (insert_organism data)"
  unfolding insert_organism_def organism_step_def
  by (intro keeps_intros keeps_run_all) (simp add: organism_stmts_def anchored_block)

lemma author_block:
  assumes "anchored l \<and> CreateNode ''Reference'' ps \<in> set l"
  shows "anchored (l @ [CreateNode ''Author'' qs,
                        CreateRel ''HAS_AUTHOR'' (''Reference'', ps) (''Author'', qs)])
         \<and> CreateNode ''Reference'' ps
             \<in> set (l @ [CreateNode ''Author'' qs,
                         CreateRel ''HAS_AUTHOR'' (''Reference'', ps) (''Author'', qs)])"
proof -
  from assms have "endpoints_first (l @ [CreateNode ''Author'' qs])"
    by (simp add: anchored_def endpoints_first_snoc_node)
  then have "endpoints_first ((l @ [CreateNode ''Author'' qs])
               @ [CreateRel ''HAS_AUTHOR'' (''Reference'', ps) (''Author'', qs)])"
    using assms by (intro endpoints_first_snoc_rel) simp_all
  with assms show ?thesis by (simp add: anchored_def)
qed

lemma keeps_anchored_author:
  "keeps (\<lambda>l. anchored l \<and>
            CreateNode ''Reference'' [(''id'', i), (''type'', t), (''name'', n)] \<in> set l)
     (insert_author al i t n)"
  unfolding insert_author_def person_step_def
  by (intro keeps_intros keeps_run_all) (simp only: author_stmts_def author_block)

lemma keeps_anchored_reference_tail:
  "keeps anchored
     (then_do (run_all (reference_stmts i t n))
       (eval_then (bind_e (getitem x ''citation'') (py_contains ''authorList''))
         (\<lambda>b. if b then eval_then (path x [''citation'', ''authorList''])
                            (\<lambda>authorList. insert_author authorList i t n)
               else Pair None)))"
proof (rule keeps_between[where J = "\<lambda>l. anchored l \<and>
            CreateNode ''Reference'' [(''id'', i), (''type'', t), (''name'', n)] \<in> set l"])
  fix l assume "anchored l"
  then show "anchored (l @ reference_stmts i t n) \<and>
        CreateNode ''Reference'' [(''id'', i), (''type'', t), (''name'', n)]
          \<in> set (l @ reference_stmts i t n)"
    by (simp add: reference_stmts_def anchored_block)
qed (intro keeps_intros keeps_anchored_author, simp)

lemma keeps_anchored_reference: "keeps anchored (insert_reference data)"
  unfolding insert_reference_def reference_step_def
  by (intro keeps_sub_importer keeps_eval_then keeps_for_each keeps_anchored_reference_tail)

lemmas frame_defs = sub_importer_def with_session_def open_database_def close_database_def
  eval_then_def bind_e_def then_do_def run_all_eq

lemma run_sample_doc:
  "run sample_doc init =
     (None, init\<lparr>log := sample_log,
                 calls := [Protein, Gene, Feature, Reference, Author, Author, FullName, Organism]\<rparr>)"
  by (simp add: run_def insert_protein_def insert_gene_def insert_feature_def
      insert_reference_def insert_author_def insert_fullname_def insert_organism_def
      gene_step_def gene_pred_def gene_conj_def feature_step_def feature_position_def
      reference_step_def reference_id_def citation_field_def person_step_def
      organism_step_def fullname_path_def
      sample_doc_def sample_genes_def sample_features_def sample_references_def
      sample_organisms_def sample_log_def frame_defs init_def session_run_def)


lemma anchored_protein: "hoare (\<lambda>l c. l = []) insert_protein (\<lambda>r l c. anchored l)"
  unfolding insert_protein_def
proof (rule hoare_sub_importer)
  have "hoare (\<lambda>l c. l = []) (run_all [CreateNode ''Protein'' [(''id_protein'', VStr ''Q9Y261'')]])
          (\<lambda>r l c. anchored l)"
    by (rule hoare_run_all) (simp add: anchored_def protein_anchor_def endpoints_first_def)
  then show "hoare (\<lambda>l c. \<exists>c'. c = c' @ [Protein] \<and> l = [])
     (run_all [CreateNode ''Protein'' [(''id_protein'', VStr ''Q9Y261'')]]) (\<lambda>r l c. anchored l)"
    by (rule hoare_conseq) simp_all
qed

lemma anchored_run: "anchored (log (snd (run data init)))"
proof -
  have "keeps anchored
     (then_do (insert_gene data)
     (then_do (insert_feature data)
     (then_do (insert_reference data)
     (then_do (insert_fullname data)
              (insert_organism data)))))"
    by (intro keeps_then_do keeps_anchored_gene keeps_anchored_feature keeps_anchored_reference
        keeps_anchored_fullname keeps_anchored_organism)
  then have "hoare (\<lambda>l c. l = []) (run data) (\<lambda>r l c. anchored l)"
    unfolding run_def keeps_def by (intro hoare_then_do[OF anchored_protein])
  from hoareD[OF this, of init] show ?thesis by (simp add: init_def)
qed

lemma endpoints_firstD:
  assumes "endpoints_first l" and "i < length l" and "l ! i = CreateRel r a b"
  shows "CreateNode (fst a) (snd a) \<in> set (take i l) \<and> CreateNode (fst b) (snd b) \<in> set (take i l)"
proof -
  from assms(1,2) have "case l ! i of CreateNode lb ps \<Rightarrow> True
     | CreateRel r a b \<Rightarrow> CreateNode (fst a) (snd a) \<in> set (take i l) \<and>
                          CreateNode (fst b) (snd b) \<in> set (take i l)"
    by (simp add: endpoints_first_def list_all_iff)
  with assms(3) show ?thesis by simp
qed

text \<open>
  C2. In the statements issued by a run of the whole pipeline on any document (whether
  the run completes or raises), a relationship statement at position \<open>i\<close> is preceded,
  at strictly smaller positions, by the node-creation statement of its anchor (same
  label, same properties) and by the node-creation statement of its dependent node.
\<close>

theorem relationships_after_endpoints:
  assumes "i < length (log (snd (run data init)))"
    and "log (snd (run data init)) ! i = CreateRel r a b"
  shows "(\<exists>j<i. log (snd (run data init)) ! j = CreateNode (fst a) (snd a)) \<and>
         (\<exists>k<i. log (snd (run data init)) ! k = CreateNode (fst b) (snd b))"
proof -
  let ?l = "log (snd (run data init))"
  have "endpoints_first ?l"
    using anchored_run by (simp add: anchored_def)
  from endpoints_firstD[OF this assms]
  have "CreateNode (fst a) (snd a) \<in> set (take i ?l)"
    and "CreateNode (fst b) (snd b) \<in> set (take i ?l)"
    by simp_all
  then show ?thesis
    using assms(1) by (auto simp: in_set_conv_nth)
qed

theorem relationships_after_endpoints_witness:
  "10 < length (log (snd (run sample_doc init))) \<and>
   log (snd (run sample_doc init)) ! 10 =
     CreateRel ''HAS_AUTHOR''
       (''Reference'', [(''id'', VStr ''1''), (''type'', VStr ''journal article''),
                        (''name'', VStr ''Genomics'')])
       (''Author'', [(''name'', VStr ''Yamada S.'')]) \<and>
   (\<exists>j<10. log (snd (run sample_doc init)) ! j =
       CreateNode ''Reference'' [(''id'', VStr ''1''), (''type'', VStr ''journal article''),
                                 (''name'', VStr ''Genomics'')]) \<and>
   (\<exists>k<10. log (snd (run sample_doc init)) ! k =
       CreateNode ''Author'' [(''name'', VStr ''Yamada S.'')])"
proof -
  have len: "10 < length (log (snd (run sample_doc init)))"
    by (simp add: run_sample_doc sample_log_def gene_stmts_def feature_stmts_def
        reference_stmts_def author_stmts_def fullname_stmts_def organism_stmts_def)
  have at: "log (snd (run sample_doc init)) ! 10 =
     CreateRel ''HAS_AUTHOR''
       (''Reference'', [(''id'', VStr ''1''), (''type'', VStr ''journal article''),
                        (''name'', VStr ''Genomics'')])
       (''Author'', [(''name'', VStr ''Yamada S.'')])"
    by (simp add: run_sample_doc sample_log_def gene_stmts_def feature_stmts_def
        reference_stmts_def author_stmts_def fullname_stmts_def organism_stmts_def)
  from relationships_after_endpoints[OF len at] len at show ?thesis by simp
qed

section \<open>The order in which the methods are entered\<close>

lemma quiet_skip: "quiet (Pair None)"
  by (simp add: quiet_def)

lemma quiet_run_all: "quiet (run_all qs)"
  by (simp add: quiet_def run_all_eq)

lemma quiet_eval_then: "(\<And>v. m = Inr v \<Longrightarrow> quiet (k v)) \<Longrightarrow> quiet (eval_then m k)"
  by (cases m) (simp_all add: quiet_def eval_then_def)

lemma quiet_if: "quiet f \<Longrightarrow> quiet g \<Longrightarrow> quiet (if b then f else g)"
  by simp

lemma then_do_fst:
  "fst (then_do f g s) = (if fst (f s) = None then fst (g (snd (f s))) else fst (f s))"
  by (simp add: then_do_def split: prod.splits option.splits)

lemma then_do_snd:
  "snd (then_do f g s) = (if fst (f s) = None then snd (g (snd (f s))) else snd (f s))"
  by (simp add: then_do_def split: prod.splits option.splits)

lemma quiet_then_do: "quiet f \<Longrightarrow> quiet g \<Longrightarrow> quiet (then_do f g)"
  by (simp add: quiet_def then_do_snd)

lemma quiet_for_each: 
  assumes "\<And>x. quiet (f x)"
  shows "quiet (for_each f xs)"
proof (induction xs)
  case Nil
  show ?case by (simp add: quiet_def)
next
  case (Cons x xs)
  then show ?case
    unfolding for_each_Cons_then_do by (intro quiet_then_do assms)
qed

lemmas quiet_intros = quiet_skip quiet_run_all quiet_eval_then quiet_if quiet_then_do
  quiet_for_each

lemma sub_importer_calls:
  assumes "quiet body"
  shows "calls (snd (sub_importer nm body s)) = calls s @ [nm]"
  using assms
  by (simp add: quiet_def sub_importer_proj with_session_proj open_database_def)

lemma insert_protein_calls: "calls (snd (insert_protein s)) = calls s @ [Protein]"
  unfolding insert_protein_def by (intro sub_importer_calls quiet_intros)

lemma insert_gene_calls: "calls (snd (insert_gene data s)) = calls s @ [Gene]"
  unfolding insert_gene_def gene_step_def by (intro sub_importer_calls quiet_intros)

lemma insert_feature_calls: "calls (snd (insert_feature data s)) = calls s @ [Feature]"
  unfolding insert_feature_def feature_step_def by (intro sub_importer_calls quiet_intros)

lemma insert_fullname_calls: "calls (snd (insert_fullname data s)) = calls s @ [FullName]"
  unfolding insert_fullname_def by (intro sub_importer_calls quiet_intros)

lemma insert_organism_calls: "calls (snd (insert_organism data s)) = calls s @ [Organism]"
  unfolding insert_organism_def organism_step_def by (intro sub_importer_calls quiet_intros)

lemma insert_author_calls: "calls (snd (insert_author al i t n s)) = calls s @ [Author]"
  unfolding insert_author_def person_step_def by (intro sub_importer_calls quiet_intros)


lemma reference_tail_calls:
  fixes x i t n
  defines "tail \<equiv> then_do (run_all (reference_stmts i t n))
       (eval_then (bind_e (getitem x ''citation'') (py_contains ''authorList''))
         (\<lambda>b. if b then eval_then (path x [''citation'', ''authorList''])
                            (\<lambda>authorList. insert_author authorList i t n)
               else Pair None))"
  shows "\<exists>k. calls (snd (tail s)) = calls s @ replicate k Author \<and>
             k \<le> (if has_author_list x then 1 else 0) \<and>
             (fst (tail s) = None \<longrightarrow> k = (if has_author_list x then 1 else 0))"
proof (cases "bind_e (getitem x ''citation'') (py_contains ''authorList'')")
  case (Inl e)
  then have "calls (snd (tail s)) = calls s @ replicate 0 Author" and "fst (tail s) \<noteq> None"
    by (simp_all add: tail_def then_do_snd then_do_fst run_all_eq eval_then_def)
  then show ?thesis by - (rule exI[of _ 0], simp)
next
  case (Inr b)
  show ?thesis
  proof (cases b)
    case False
    with Inr have "calls (snd (tail s)) = calls s @ replicate 0 Author"
      and "\<not> has_author_list x"
      by (simp_all add: tail_def then_do_snd run_all_eq eval_then_def has_author_list_def)
    then show ?thesis by - (rule exI[of _ 0], simp)
  next
    case True
    with Inr have has: "has_author_list x"
      by (simp add: has_author_list_def)
    show ?thesis
    proof (cases "path x [''citation'', ''authorList'']")
      case (Inl e)
      with Inr True have "calls (snd (tail s)) = calls s @ replicate 0 Author"
        and "fst (tail s) \<noteq> None"
        by (simp_all add: tail_def then_do_snd then_do_fst run_all_eq eval_then_def)
      then show ?thesis by - (rule exI[of _ 0], simp)
    next
      case (Inr al)
      with \<open>bind_e (getitem x ''citation'') (py_contains ''authorList'') = Inr b\<close> True
      have "calls (snd (tail s)) = calls s @ replicate 1 Author"
        by (simp add: tail_def then_do_snd run_all_eq eval_then_def insert_author_calls)
      with has show ?thesis by (intro exI[of _ 1]) simp
    qed
  qed
qed

lemma eval_then_cases:
  assumes "\<And>e. m = Inl e \<Longrightarrow> R (Some e, s)" and "\<And>v. m = Inr v \<Longrightarrow> R (k v s)"
  shows "R (eval_then m k s)"
  using assms by (cases m) (simp_all add: eval_then_def)

lemma reference_step_calls:
  "\<exists>k. calls (snd (reference_step x s)) = calls s @ replicate k Author \<and>
       k \<le> (if has_author_list x then 1 else 0) \<and>
       (fst (reference_step x s) = None \<longrightarrow> k = (if has_author_list x then 1 else 0))"
  (is "?R (reference_step x s)")
proof -
  have quit: "?R (Some e, s)" for e
    by (intro exI[of _ 0]) simp
  show ?thesis
    unfolding reference_step_def
    by (intro eval_then_cases[where R = ?R] quit reference_tail_calls)
qed

lemma for_each_reference_calls:
  "\<exists>k. calls (snd (for_each reference_step refs s)) = calls s @ replicate k Author \<and>
       k \<le> length (filter has_author_list refs) \<and>
       (fst (for_each reference_step refs s) = None \<longrightarrow> k = length (filter has_author_list refs))"
proof (induction refs arbitrary: s)
  case Nil
  show ?case by simp
next
  case (Cons x refs)
  obtain k where k: "calls (snd (reference_step x s)) = calls s @ replicate k Author"
    "k \<le> (if has_author_list x then 1 else 0)"
    "fst (reference_step x s) = None \<longrightarrow> k = (if has_author_list x then 1 else 0)"
    using reference_step_calls by blast
  show ?case
  proof (cases "fst (reference_step x s)")
    case (Some e)
    with k have "calls (snd (for_each reference_step (x # refs) s)) = calls s @ replicate k Author"
      and "fst (for_each reference_step (x # refs) s) \<noteq> None"
      by (simp_all add: for_each_Cons_then_do then_do_snd then_do_fst)
    with k(2) show ?thesis by (intro exI[of _ k]) auto
  next
    case None
    obtain m where m: "calls (snd (for_each reference_step refs (snd (reference_step x s)))) =
         calls (snd (reference_step x s)) @ replicate m Author"
      "m \<le> length (filter has_author_list refs)"
      "fst (for_each reference_step refs (snd (reference_step x s))) = None \<longrightarrow>
         m = length (filter has_author_list refs)"
      using Cons.IH by blast
    from None k m have "calls (snd (for_each reference_step (x # refs) s)) =
        calls s @ replicate (k + m) Author"
      by (simp add: for_each_Cons_then_do then_do_snd replicate_add)
    moreover from None k m have "k + m \<le> length (filter has_author_list (x # refs))"
      by simp
    moreover from None k m have "fst (for_each reference_step (x # refs) s) = None \<longrightarrow>
        k + m = length (filter has_author_list (x # refs))"
      by (simp add: for_each_Cons_then_do then_do_fst)
    ultimately show ?thesis by - (rule exI[of _ "k + m"], simp)
  qed
qed


lemma insert_reference_calls:
  "\<exists>k. calls (snd (insert_reference data s)) = calls s @ Reference # replicate k Author \<and>
       (fst (insert_reference data s) = None \<longrightarrow>
          (\<exists>refs. bind_e (path data [''uniprot'', ''entry'', ''reference'']) py_iter = Inr refs \<and>
                  k = length (filter has_author_list refs)))"
proof (cases "bind_e (path data [''uniprot'', ''entry'', ''reference'']) py_iter")
  case (Inl e)
  then have "calls (snd (insert_reference data s)) = calls s @ Reference # replicate 0 Author"
    and "fst (insert_reference data s) \<noteq> None"
    by (simp_all add: insert_reference_def sub_importer_proj with_session_proj eval_then_def
        open_database_def)
  then show ?thesis by - (rule exI[of _ 0], auto)
next
  case (Inr refs)
  let ?s1 = "(open_database (s\<lparr>calls := calls s @ [Reference]\<rparr>))
               \<lparr>open_sessions := Suc (open_sessions (open_database (s\<lparr>calls := calls s @ [Reference]\<rparr>)))\<rparr>"
  obtain k where k: "calls (snd (for_each reference_step refs ?s1)) = calls ?s1 @ replicate k Author"
    "fst (for_each reference_step refs ?s1) = None \<longrightarrow> k = length (filter has_author_list refs)"
    using for_each_reference_calls by blast
  from Inr have "insert_reference data s = sub_importer Reference (for_each reference_step refs) s"
    by (simp add: insert_reference_def sub_importer_def with_session_def eval_then_def)
  with k Inr show ?thesis
    by (intro exI[of _ k]) (simp add: sub_importer_proj with_session_proj open_database_def)
qed

lemma then_do_if: "then_do f g s = (if fst (f s) = None then g (snd (f s)) else f s)"
  by (cases "f s") (auto simp: then_do_def)

text \<open>
  C6. On every document the methods entered by \<^verbatim>\<open>run\<close>, in order, are an initial part
  of Protein, Gene, Feature, Reference, some number of times Author, FullName, Organism;
  a run that raises nothing enters all of them, and enters \<^verbatim>\<open>insert_author\<close> once for
  each reference whose citation contains an author list, all of these during the
  reference step.
\<close>

theorem fixed_invocation_order:
  "\<exists>k. prefix (calls (snd (run data init)))
         ([Protein, Gene, Feature, Reference] @ replicate k Author @ [FullName, Organism]) \<and>
       (fst (run data init) = None \<longrightarrow>
          calls (snd (run data init)) =
            [Protein, Gene, Feature, Reference] @ replicate k Author @ [FullName, Organism] \<and>
          (\<exists>refs. bind_e (path data [''uniprot'', ''entry'', ''reference'']) py_iter = Inr refs \<and>
                  k = length (filter has_author_list refs)))"
proof -
  define p where "p = insert_protein init"
  define g where "g = insert_gene data (snd p)"
  define f where "f = insert_feature data (snd g)"
  define r where "r = insert_reference data (snd f)"
  define n where "n = insert_fullname data (snd r)"
  define z where "z = insert_organism data (snd n)"
  have run_eq: "run data init =
     (if fst p \<noteq> None then p else if fst g \<noteq> None then g else if fst f \<noteq> None then f
      else if fst r \<noteq> None then r else if fst n \<noteq> None then n else z)"
    unfolding p_def g_def f_def r_def n_def z_def by (simp add: run_def then_do_if)
  have cp: "calls (snd p) = [Protein]"
    by (simp add: p_def insert_protein_calls init_def)
  have cg: "calls (snd g) = [Protein, Gene]"
    by (simp add: g_def insert_gene_calls cp)
  have cf: "calls (snd f) = [Protein, Gene, Feature]"
    by (simp add: f_def insert_feature_calls cg)
  obtain k where cr: "calls (snd r) = [Protein, Gene, Feature, Reference] @ replicate k Author"
    and ok: "fst r = None \<longrightarrow>
       (\<exists>refs. bind_e (path data [''uniprot'', ''entry'', ''reference'']) py_iter = Inr refs \<and>
               k = length (filter has_author_list refs))"
    using insert_reference_calls[of data "snd f"] unfolding r_def[symmetric] cf by auto
  have cn: "calls (snd n) = [Protein, Gene, Feature, Reference] @ replicate k Author @ [FullName]"
    by (simp add: n_def insert_fullname_calls cr)
  have cz: "calls (snd z) =
      [Protein, Gene, Feature, Reference] @ replicate k Author @ [FullName, Organism]"
    by (simp add: z_def insert_organism_calls cn)
  have "prefix (calls (snd (run data init)))
         ([Protein, Gene, Feature, Reference] @ replicate k Author @ [FullName, Organism])"
    by (simp add: run_eq cp cg cf cr cn cz)
  moreover have "fst (run data init) = None \<longrightarrow>
          calls (snd (run data init)) =
            [Protein, Gene, Feature, Reference] @ replicate k Author @ [FullName, Organism] \<and>
          (\<exists>refs. bind_e (path data [''uniprot'', ''entry'', ''reference'']) py_iter = Inr refs \<and>
                  k = length (filter has_author_list refs))"
  proof (intro impI)
    assume "fst (run data init) = None"
    then have all: "fst p = None \<and> fst g = None \<and> fst f = None \<and> fst r = None \<and> fst n = None"
      by (simp add: run_eq split: if_splits)
    then have "run data init = z"
      by (simp add: run_eq)
    with all ok cz show "calls (snd (run data init)) =
            [Protein, Gene, Feature, Reference] @ replicate k Author @ [FullName, Organism] \<and>
          (\<exists>refs. bind_e (path data [''uniprot'', ''entry'', ''reference'']) py_iter = Inr refs \<and>
                  k = length (filter has_author_list refs))"
      by simp
  qed
  ultimately show ?thesis by - (rule exI[of _ k], rule conjI, assumption+)
qed


theorem fixed_invocation_order_witness:
  "fst (run sample_doc init) = None \<and>
   calls (snd (run sample_doc init)) =
     [Protein, Gene, Feature, Reference, Author, Author, FullName, Organism]"
proof -
  have ok: "fst (run sample_doc init) = None"
    by (simp add: run_sample_doc)
  have refs: "bind_e (path sample_doc [''uniprot'', ''entry'', ''reference'']) py_iter
                = Inr sample_references"
    by (simp add: sample_doc_def bind_e_def)
  have two: "length (filter has_author_list sample_references) = 2"
    by (simp add: sample_references_def has_author_list_def bind_e_def)
  from fixed_invocation_order[of sample_doc] ok obtain k refs' where
    "calls (snd (run sample_doc init)) =
       [Protein, Gene, Feature, Reference] @ replicate k Author @ [FullName, Organism]"
    and "bind_e (path sample_doc [''uniprot'', ''entry'', ''reference'']) py_iter = Inr refs'"
    and "k = length (filter has_author_list refs')"
    by auto
  with refs two ok show ?thesis
    by (simp add: numeral_2_eq_2)
qed

section \<open>Loops in which every element is processed\<close>

lemma for_each_all_succeed:
  assumes "\<And>x s. x \<in> set xs \<Longrightarrow> f x s = (None, s\<lparr>log := log s @ out x, calls := calls s @ cs x\<rparr>)"
  shows "for_each f xs s =
           (None, s\<lparr>log := log s @ concat (map out xs), calls := calls s @ concat (map cs xs)\<rparr>)"
  using assms by (induction xs arbitrary: s) simp_all

lemma for_each_emits:
  assumes "\<And>x s. x \<in> set xs \<Longrightarrow> f x s = (None, s\<lparr>log := log s @ out x\<rparr>)"
  shows "for_each f xs s = (None, s\<lparr>log := log s @ concat (map out xs)\<rparr>)"
  using assms by (induction xs arbitrary: s) simp_all

lemma sub_importer_emits:
  assumes "\<And>s. body s = (None, s\<lparr>log := log s @ out, calls := calls s @ cs\<rparr>)"
  shows "sub_importer nm body s = (None, s\<lparr>log := log s @ out, calls := calls s @ nm # cs\<rparr>)"
  by (simp add: sub_importer_def with_session_def open_database_def close_database_def assms)

lemma has_keyE:
  assumes "has_key k v"
  obtains kvs x where "v = VDict kvs" and "map_of kvs k = Some x"
  using assms by (auto simp: has_key_def split: val.splits)

lemma organism_step_emits:
  assumes "has_key ''#text'' x"
  shows "organism_step x s =
     (None, s\<lparr>log := log s @
        (if getitem x ''#text'' = Inr (VStr ''Homo sapiens'')
         then [CreateNode ''Organism''
                 [(''name'', VStr ''Homo sapiens''), (''taxonomy_id'', VStr ''9606'')],
               CreateRel ''IN_ORGANISM'' (''Protein'', [(''id_protein'', VStr ''Q9Y261'')])
                 (''Organism'',
                  [(''name'', VStr ''Homo sapiens''), (''taxonomy_id'', VStr ''9606'')])]
         else [])\<rparr>)"
  using assms
  by (elim has_keyE)
     (simp add: organism_step_def eval_then_def run_all_eq organism_stmts_def protein_anchor_def)




section \<open>References and their authors\<close>

lemma citation_absent_or_dictE:
  assumes "citation_absent_or_dict reference"
  obtains (absent) kvs where "reference = VDict kvs" and "map_of kvs ''citation'' = None"
  | (dict) kvs cs where "reference = VDict kvs" and "map_of kvs ''citation'' = Some (VDict cs)"
proof (cases reference)
  case (VDict kvs)
  show ?thesis
  proof (cases "map_of kvs ''citation''")
    case None
    with VDict show ?thesis by (rule absent)
  next
    case (Some c)
    with assms VDict obtain cs where "c = VDict cs"
      by (cases c) (simp_all add: citation_absent_or_dict_def)
    with VDict Some show ?thesis by (intro dict) simp_all
  qed
qed (use assms in \<open>simp_all add: citation_absent_or_dict_def\<close>)

lemma reference_fields:
  assumes "citation_absent_or_dict reference"
  shows "reference_id reference = Inr (spec_reference_id reference)"
    and "citation_field reference k = Inr (spec_citation_field reference k)"
  using assms
  by (auto elim!: citation_absent_or_dictE
      simp: reference_id_def citation_field_def
      spec_reference_id_def spec_citation_field_def bind_e_def
      split: option.splits)

lemma reference_step_unfold:
  assumes "citation_absent_or_dict reference"
  shows "reference_step reference =
     then_do (run_all (reference_stmts (spec_reference_id reference)
                (spec_citation_field reference ''@type'') (spec_citation_field reference ''@name'')))
       (eval_then (bind_e (getitem reference ''citation'') (py_contains ''authorList'')) (\<lambda>b.
          if b then
            eval_then (path reference [''citation'', ''authorList'']) (\<lambda>authorList.
              insert_author authorList (spec_reference_id reference)
                (spec_citation_field reference ''@type'') (spec_citation_field reference ''@name''))
          else Pair None))"
  by (simp add: reference_step_def reference_fields[OF assms] eval_then_Inr)

lemma then_do_run_all_log:
  assumes "regular g"
  shows "\<exists>rest. log (snd (then_do (run_all qs) g s)) = log s @ qs @ rest"
  using assms by (auto simp: regular_def effect_def then_do_if run_all_eq)


lemma person_step_emits:
  assumes "has_key ''@name'' p"
  shows "person_step i t n p s =
     (None, s\<lparr>log := log s @
        [CreateNode ''Author'' [(''name'', projr (getitem p ''@name''))],
         CreateRel ''HAS_AUTHOR'' (''Reference'', [(''id'', i), (''type'', t), (''name'', n)])
           (''Author'', [(''name'', projr (getitem p ''@name''))])]\<rparr>)"
  using assms
  by (elim has_keyE) (simp add: person_step_def eval_then_Inr run_all_eq author_stmts_def)

lemma insert_author_emits:
  assumes "getitem al ''person'' = Inr (VList persons)"
    and "list_all (has_key ''@name'') persons"
  shows "insert_author al i t n s =
     (None, s\<lparr>log := log s @ concat (map (\<lambda>p.
        [CreateNode ''Author'' [(''name'', projr (getitem p ''@name''))],
         CreateRel ''HAS_AUTHOR'' (''Reference'', [(''id'', i), (''type'', t), (''name'', n)])
           (''Author'', [(''name'', projr (getitem p ''@name''))])]) persons),
       calls := calls s @ [Author]\<rparr>)"
proof -
  from assms(1) have "py_contains ''person'' al = Inr True"
    by (cases al) (auto split: option.splits)
  with assms(1) have "insert_author al i t n =
      sub_importer Author (for_each (person_step i t n) persons)"
    by (simp add: insert_author_def eval_then_Inr bind_e_Inr)
  moreover have "for_each (person_step i t n) persons u =
     (None, u\<lparr>log := log u @ concat (map (\<lambda>p.
        [CreateNode ''Author'' [(''name'', projr (getitem p ''@name''))],
         CreateRel ''HAS_AUTHOR'' (''Reference'', [(''id'', i), (''type'', t), (''name'', n)])
           (''Author'', [(''name'', projr (getitem p ''@name''))])]) persons)\<rparr>)" for u
    by (rule for_each_emits) (use assms(2) in \<open>simp add: list_all_iff person_step_emits\<close>)
  ultimately show ?thesis
    by (simp add: sub_importer_emits[where cs = "[]"])
qed

lemma getitem_InrE:
  assumes "getitem v k = Inr w"
  obtains kvs where "v = VDict kvs" and "map_of kvs k = Some w"
  using assms by (cases v) (auto split: option.splits)

lemma path_ConsE:
  assumes "path v (k # ks) = Inr x"
  obtains w where "getitem v k = Inr w" and "path w ks = Inr x"
  using assms by (cases "getitem v k") (simp_all add: bind_e_def)


section \<open>Protein import followed by gene import\<close>

lemma gene_pred_shaped:
  assumes "gene_shaped g"
  shows "gene_pred g = Inr (spec_gene_selected g)"
  using assms
  by (auto simp: gene_shaped_def gene_pred_def gene_conj_def spec_gene_selected_def bind_e_def
      elim!: has_keyE)

lemma gene_step_emits:
  assumes "gene_shaped g"
  shows "gene_step g s =
     (None, s\<lparr>log := log s @
        (if spec_gene_selected g then gene_stmts (projr (getitem g ''#text'')) else [])\<rparr>)"
proof -
  from assms obtain x where "getitem g ''#text'' = Inr x"
    by (auto simp: gene_shaped_def elim: has_keyE)
  then show ?thesis
    by (simp add: gene_step_def gene_pred_shaped[OF assms] eval_then_Inr run_all_eq)
qed

lemma protein_then_gene:
  assumes "path data [''uniprot'', ''entry'', ''gene'', ''name''] = Inr (VList names)"
    and "list_all gene_shaped names"
  shows "then_do insert_protein (insert_gene data) init =
     (None, init\<lparr>log := CreateNode ''Protein'' [(''id_protein'', VStr ''Q9Y261'')] #
        concat (map (\<lambda>g. if spec_gene_selected g
                           then gene_stmts (projr (getitem g ''#text'')) else []) names),
       calls := [Protein, Gene]\<rparr>)"
proof -
  have loop: "for_each gene_step names t = (None, t\<lparr>log := log t @
      concat (map (\<lambda>g. if spec_gene_selected g
                           then gene_stmts (projr (getitem g ''#text'')) else []) names)\<rparr>)" for t
    by (rule for_each_emits) (use assms(2) in \<open>simp add: list_all_iff gene_step_emits\<close>)
  have "insert_gene data = sub_importer Gene (for_each gene_step names)"
    using assms(1) by (simp add: insert_gene_def bind_e_Inr eval_then_Inr)
  moreover have "insert_protein s =
      (None, s\<lparr>log := log s @ [CreateNode ''Protein'' [(''id_protein'', VStr ''Q9Y261'')]],
                calls := calls s @ [Protein]\<rparr>)" for s
    unfolding insert_protein_def
    by (rule sub_importer_emits[where cs = "[]", simplified]) (simp add: run_all_eq)
  ultimately show ?thesis
    by (simp add: then_do_if sub_importer_emits[where cs = "[]"] loop init_def)
qed

lemmas store_defs = empty_graph_def matching_def node_matches_def count_nodes_def
  count_edges_def

text \<open>
  C1, as stated, counts edges. On an entry that lists the synonym HNF3B twice, both
  elements are selected and two Gene nodes are created, but the second FROM_GENE
  statement matches both Gene nodes named HNF3B: three edges for two selected elements.
\<close>

theorem duplicate_names_multiply_edges:
  "path twin_gene_doc [''uniprot'', ''entry'', ''gene'', ''name''] = Inr (VList twin_genes) \<and>
   list_all gene_shaped twin_genes \<and>
   length (filter spec_gene_selected twin_genes) = 2 \<and>
   count_nodes ''Gene'' (genes_imported twin_gene_doc) = 2 \<and>
   count_edges ''FROM_GENE'' (genes_imported twin_gene_doc) = 3"
proof -
  have p: "path twin_gene_doc [''uniprot'', ''entry'', ''gene'', ''name''] = Inr (VList twin_genes)"
    by (simp add: twin_gene_doc_def bind_e_def)
  have sh: "list_all gene_shaped twin_genes"
    by (simp add: twin_genes_def gene_shaped_def has_key_def)
  have sel: "length (filter spec_gene_selected twin_genes) = 2"
    by (simp add: twin_genes_def spec_gene_selected_def)
  have g: "genes_imported twin_gene_doc =
     \<lparr>nodes = [(''Protein'', [(''id_protein'', VStr ''Q9Y261'')]),
               (''Gene'', [(''name'', VStr ''HNF3B'')]),
               (''Gene'', [(''name'', VStr ''HNF3B'')])],
      edges = [(''FROM_GENE'', 0, 1), (''FROM_GENE'', 0, 1), (''FROM_GENE'', 0, 2)]\<rparr>"
    by (simp add: genes_imported_def protein_then_gene[OF p sh])
       (simp add: twin_genes_def spec_gene_selected_def gene_stmts_def protein_anchor_def
          store_defs)
  have n: "count_nodes ''Gene'' (genes_imported twin_gene_doc) = 2"
    by (simp add: g count_nodes_def)
  have e: "count_edges ''FROM_GENE'' (genes_imported twin_gene_doc) = 3"
    by (simp add: g count_edges_def)
  from p sh sel n e show ?thesis
    by (intro conjI)
qed

lemma concat_map_if_filter:
  "concat (map (\<lambda>x. if P x then f x else []) xs) = concat (map f (filter P xs))"
  by (induction xs) simp_all

lemma distinct_among_two:
  assumes "distinct ts" and "set ts \<subseteq> {a, b}"
  shows "ts = [] \<or> ts = [a] \<or> ts = [b] \<or> ts = [a, b] \<or> ts = [b, a]"
proof (cases ts)
  case Nil
  then show ?thesis by simp
next
  case one: (Cons x xs)
  show ?thesis
  proof (cases xs)
    case Nil
    with one assms show ?thesis by auto
  next
    case two: (Cons y ys)
    show ?thesis
    proof (cases ys)
      case Nil
      with one two assms show ?thesis by auto
    next
      case (Cons z zs)
      with one two assms show ?thesis by auto
    qed
  qed
qed

lemma selected_text:
  assumes "spec_gene_selected g"
  shows "getitem g ''#text'' = Inr (projr (getitem g ''#text''))"
    and "projr (getitem g ''#text'') \<in> {VStr ''HNF3B'', VStr ''FOXA2''}"
  using assms by (auto simp: spec_gene_selected_def)

lemma edges_of_distinct_genes:
  assumes "distinct ts" and "set ts \<subseteq> {VStr ''HNF3B'', VStr ''FOXA2''}"
  shows "count_edges ''FROM_GENE''
           (fold exec (CreateNode ''Protein'' [(''id_protein'', VStr ''Q9Y261'')] #
                       concat (map gene_stmts ts)) empty_graph) = length ts"
proof -
  from distinct_among_two[OF assms]
  consider "ts = []" | "ts = [VStr ''HNF3B'']" | "ts = [VStr ''FOXA2'']"
    | "ts = [VStr ''HNF3B'', VStr ''FOXA2'']" | "ts = [VStr ''FOXA2'', VStr ''HNF3B'']"
    by blast
  then show ?thesis
    by cases (simp_all add: gene_stmts_def protein_anchor_def store_defs)
qed

lemma count_gene_stmts:
  "length (filter (creates ''Gene'') (concat (map gene_stmts ts))) = length ts"
  "length (filter (relates ''FROM_GENE'') (concat (map gene_stmts ts))) = length ts"
  by (induction ts) (simp_all add: gene_stmts_def)

text \<open>
  C1 as amended. On a document whose gene names are a list of dicts with type and text,
  the protein import followed by the gene import raises nothing and issues, after the
  creation of the Protein node, for each gene name that is selected (synonym HNF3B or
  primary FOXA2) and for no other, the creation of one Gene node with that text and
  one FROM_GENE statement from the protein to the Gene pattern with that text. So the
  number of Gene nodes and the number of FROM_GENE statements are the number of selected
  elements. On the empty store the number of FROM_GENE edges is that number too when
  no two selected elements have the same text.
\<close>

theorem gene_import:
  assumes "path data [''uniprot'', ''entry'', ''gene'', ''name''] = Inr (VList names)"
    and "list_all gene_shaped names"
  shows "then_do insert_protein (insert_gene data) init =
     (None, init\<lparr>log := CreateNode ''Protein'' [(''id_protein'', VStr ''Q9Y261'')] #
        concat (map (\<lambda>g. if spec_gene_selected g
           then [CreateNode ''Gene'' [(''name'', projr (getitem g ''#text''))],
                 CreateRel ''FROM_GENE'' (''Protein'', [(''id_protein'', VStr ''Q9Y261'')])
                   (''Gene'', [(''name'', projr (getitem g ''#text''))])]
           else []) names),
       calls := [Protein, Gene]\<rparr>) \<and>
     length (filter (creates ''Gene'') (log (snd (then_do insert_protein (insert_gene data) init))))
       = length (filter spec_gene_selected names) \<and>
     length (filter (relates ''FROM_GENE'')
        (log (snd (then_do insert_protein (insert_gene data) init))))
       = length (filter spec_gene_selected names) \<and>
     count_nodes ''Gene'' (genes_imported data) = length (filter spec_gene_selected names) \<and>
     (distinct (map (\<lambda>g. getitem g ''#text'') (filter spec_gene_selected names)) \<longrightarrow>
        count_edges ''FROM_GENE'' (genes_imported data) = length (filter spec_gene_selected names))"
proof -
  let ?ms = "filter spec_gene_selected names"
  let ?ts = "map (\<lambda>g. projr (getitem g ''#text'')) ?ms"
  let ?P = "CreateNode ''Protein'' [(''id_protein'', VStr ''Q9Y261'')]"
  note run = protein_then_gene[OF assms]
  have lg: "log (snd (then_do insert_protein (insert_gene data) init)) =
              ?P # concat (map gene_stmts ?ts)"
    by (simp add: run concat_map_if_filter comp_def)
  have first: "then_do insert_protein (insert_gene data) init =
     (None, init\<lparr>log := ?P #
        concat (map (\<lambda>g. if spec_gene_selected g
           then [CreateNode ''Gene'' [(''name'', projr (getitem g ''#text''))],
                 CreateRel ''FROM_GENE'' (''Protein'', [(''id_protein'', VStr ''Q9Y261'')])
                   (''Gene'', [(''name'', projr (getitem g ''#text''))])]
           else []) names),
       calls := [Protein, Gene]\<rparr>)"
    by (simp add: run gene_stmts_def protein_anchor_def cong: if_cong)
  have creates: "length (filter (creates ''Gene'')
       (log (snd (then_do insert_protein (insert_gene data) init)))) = length ?ms"
    unfolding lg using count_gene_stmts[of ?ts] by simp
  have relates: "length (filter (relates ''FROM_GENE'')
       (log (snd (then_do insert_protein (insert_gene data) init)))) = length ?ms"
    unfolding lg using count_gene_stmts[of ?ts] by simp
  have nodes: "count_nodes ''Gene'' (genes_imported data) = length ?ms"
    unfolding genes_imported_def count_nodes_fold_exec creates
    by (simp add: count_nodes_def empty_graph_def)
  have edges: "count_edges ''FROM_GENE'' (genes_imported data) = length ?ms"
    if d: "distinct (map (\<lambda>g. getitem g ''#text'') ?ms)"
  proof -
    have "map (\<lambda>g. getitem g ''#text'') ?ms = map Inr ?ts"
      by (simp add: selected_text(1)[symmetric])
    with d have "distinct (map (Inr :: val \<Rightarrow> py_error + val) ?ts)"
      by simp
    then have "distinct ?ts"
      unfolding distinct_map by (rule conjunct1)
    moreover have "set ?ts \<subseteq> {VStr ''HNF3B'', VStr ''FOXA2''}"
      using selected_text(2) by auto
    ultimately have "count_edges ''FROM_GENE'' (fold exec (?P # concat (map gene_stmts ?ts))
        empty_graph) = length ?ts"
      by (rule edges_of_distinct_genes)
    then show ?thesis
      by (simp add: genes_imported_def lg)
  qed
  from first creates relates nodes edges show ?thesis
    by (intro conjI impI)
qed

theorem gene_import_witness:
  "path sample_doc [''uniprot'', ''entry'', ''gene'', ''name''] = Inr (VList sample_genes) \<and>
   list_all gene_shaped sample_genes \<and>
   distinct (map (\<lambda>g. getitem g ''#text'') (filter spec_gene_selected sample_genes)) \<and>
   then_do insert_protein (insert_gene sample_doc) init =
     (None, init\<lparr>log :=
        [CreateNode ''Protein'' [(''id_protein'', VStr ''Q9Y261'')],
         CreateNode ''Gene'' [(''name'', VStr ''HNF3B'')],
         CreateRel ''FROM_GENE'' (''Protein'', [(''id_protein'', VStr ''Q9Y261'')])
           (''Gene'', [(''name'', VStr ''HNF3B'')]),
         CreateNode ''Gene'' [(''name'', VStr ''FOXA2'')],
         CreateRel ''FROM_GENE'' (''Protein'', [(''id_protein'', VStr ''Q9Y261'')])
           (''Gene'', [(''name'', VStr ''FOXA2'')])],
       calls := [Protein, Gene]\<rparr>) \<and>
   count_nodes ''Gene'' (genes_imported sample_doc) = 2 \<and>
   count_edges ''FROM_GENE'' (genes_imported sample_doc) = 2"
proof -
  have p: "path sample_doc [''uniprot'', ''entry'', ''gene'', ''name''] = Inr (VList sample_genes)"
    by (simp add: sample_doc_def bind_e_def)
  have sh: "list_all gene_shaped sample_genes"
    by (simp add: sample_genes_def gene_shaped_def has_key_def)
  have sel: "filter spec_gene_selected sample_genes = take 2 sample_genes"
    by (simp add: sample_genes_def spec_gene_selected_def)
  have d: "distinct (map (\<lambda>g. getitem g ''#text'') (filter spec_gene_selected sample_genes))"
    by (simp add: sel) (simp add: sample_genes_def)
  note r = gene_import[OF p sh]
  from r have a: "then_do insert_protein (insert_gene sample_doc) init =
     (None, init\<lparr>log :=
        [CreateNode ''Protein'' [(''id_protein'', VStr ''Q9Y261'')],
         CreateNode ''Gene'' [(''name'', VStr ''HNF3B'')],
         CreateRel ''FROM_GENE'' (''Protein'', [(''id_protein'', VStr ''Q9Y261'')])
           (''Gene'', [(''name'', VStr ''HNF3B'')]),
         CreateNode ''Gene'' [(''name'', VStr ''FOXA2'')],
         CreateRel ''FROM_GENE'' (''Protein'', [(''id_protein'', VStr ''Q9Y261'')])
           (''Gene'', [(''name'', VStr ''FOXA2'')])],
       calls := [Protein, Gene]\<rparr>)"
    by (simp add: sample_genes_def spec_gene_selected_def)
  from r have n: "count_nodes ''Gene'' (genes_imported sample_doc) = 2"
    by (simp add: sel) (simp add: sample_genes_def)
  from r d have e: "count_edges ''FROM_GENE'' (genes_imported sample_doc) = 2"
    by (simp add: sel) (simp add: sample_genes_def)
  from p sh d a n e show ?thesis
    by (intro conjI)
qed

section \<open>A single element where a list is expected\<close>

lemma sub_importer_raises:
  assumes "body (open_database (s\<lparr>calls := calls s @ [nm]\<rparr>)\<lparr>open_sessions := Suc (open_sessions s)\<rparr>)
             = (Some e, open_database (s\<lparr>calls := calls s @ [nm]\<rparr>)\<lparr>open_sessions := Suc (open_sessions s)\<rparr>)"
  shows "sub_importer nm body s =
           (Some e, s\<lparr>calls := calls s @ [nm], open_drivers := Suc (open_drivers s)\<rparr>)"
  using assms
  by (simp add: sub_importer_def with_session_def open_database_def)

text \<open>
  C7, as stated, fails on the entry with a single gene name: given as a dict, the
  element is not made a list of one; the loop runs over its keys and the first key
  raises, while the same element in a list of one is imported.
\<close>

theorem single_gene_not_normalised:
  "insert_gene one_gene_doc init =
     (Some TypeError, init\<lparr>calls := [Gene], open_drivers := 1\<rparr>) \<and>
   insert_gene one_gene_list_doc init =
     (None, init\<lparr>log := [CreateNode ''Gene'' [(''name'', VStr ''FOXA2'')],
                          CreateRel ''FROM_GENE'' (''Protein'', [(''id_protein'', VStr ''Q9Y261'')])
                            (''Gene'', [(''name'', VStr ''FOXA2'')])],
                 calls := [Gene]\<rparr>) \<and>
   insert_gene one_gene_doc init \<noteq> insert_gene one_gene_list_doc init"
proof -
  have a: "insert_gene one_gene_doc init =
     (Some TypeError, init\<lparr>calls := [Gene], open_drivers := 1\<rparr>)"
    by (simp add: insert_gene_def one_gene_doc_def sub_importer_def with_session_def
        open_database_def eval_then_def bind_e_def gene_step_def gene_pred_def gene_conj_def
        init_def)
  have b: "insert_gene one_gene_list_doc init =
     (None, init\<lparr>log := [CreateNode ''Gene'' [(''name'', VStr ''FOXA2'')],
                          CreateRel ''FROM_GENE'' (''Protein'', [(''id_protein'', VStr ''Q9Y261'')])
                            (''Gene'', [(''name'', VStr ''FOXA2'')])],
                 calls := [Gene]\<rparr>)"
    by (simp add: insert_gene_def one_gene_list_doc_def sub_importer_def with_session_def
        open_database_def close_database_def eval_then_def bind_e_def gene_step_def
        gene_pred_def gene_conj_def gene_stmts_def protein_anchor_def run_all_eq init_def)
  from a b have "insert_gene one_gene_doc init \<noteq> insert_gene one_gene_list_doc init"
    by simp
  with a b show ?thesis by (intro conjI)
qed

lemma gene_step_key: "gene_step (VStr k) s = (Some TypeError, s)"
  by (simp add: gene_step_def gene_pred_def gene_conj_def bind_e_def eval_then_def)

lemma person_step_key: "person_step i t n (VStr k) s = (Some TypeError, s)"
  by (simp add: person_step_def eval_then_def)

lemma insert_gene_single_dict:
  assumes "path data [''uniprot'', ''entry'', ''gene'', ''name''] = Inr (VDict (kv # kvs))"
  shows "insert_gene data s =
     (Some TypeError, s\<lparr>calls := calls s @ [Gene], open_drivers := Suc (open_drivers s)\<rparr>)"
  unfolding insert_gene_def
  by (rule sub_importer_raises)
     (simp only: assms bind_e_Inr eval_then_Inr py_iter.simps list.map for_each.simps
        gene_step_key fst_conv prod.case option.case)

lemma insert_gene_one_element:
  assumes "path data [''uniprot'', ''entry'', ''gene'', ''name''] = Inr (VList [g])"
    and "gene_shaped g"
  shows "insert_gene data s =
     (None, s\<lparr>log := log s @
        (if spec_gene_selected g
         then [CreateNode ''Gene'' [(''name'', projr (getitem g ''#text''))],
               CreateRel ''FROM_GENE'' (''Protein'', [(''id_protein'', VStr ''Q9Y261'')])
                 (''Gene'', [(''name'', projr (getitem g ''#text''))])]
         else []),
       calls := calls s @ [Gene]\<rparr>)"
proof -
  have "insert_gene data = sub_importer Gene (for_each gene_step [g])"
    by (simp only: insert_gene_def assms(1) bind_e_Inr eval_then_Inr py_iter.simps)
  moreover have "for_each gene_step [g] u = (None, u\<lparr>log := log u @
        (if spec_gene_selected g
         then [CreateNode ''Gene'' [(''name'', projr (getitem g ''#text''))],
               CreateRel ''FROM_GENE'' (''Protein'', [(''id_protein'', VStr ''Q9Y261'')])
                 (''Gene'', [(''name'', projr (getitem g ''#text''))])]
         else [])\<rparr>)" for u
    by (simp add: gene_step_emits[OF assms(2)] gene_stmts_def protein_anchor_def)
  ultimately show ?thesis
    by (simp add: sub_importer_emits[where cs = "[]"])
qed

lemma insert_author_single_dict:
  assumes "getitem al ''person'' = Inr (VDict (kv # kvs))"
  shows "insert_author al i t n s =
     (Some TypeError, s\<lparr>calls := calls s @ [Author], open_drivers := Suc (open_drivers s)\<rparr>)"
proof -
  from assms have "py_contains ''person'' al = Inr True"
    by (cases al) (auto split: option.splits)
  then show ?thesis
    unfolding insert_author_def
    by (intro sub_importer_raises) (simp add: assms bind_e_Inr eval_then_Inr person_step_key)
qed


section \<open>Absent fields\<close>




text \<open>
  A reference without a citation is not among the cases above: the three fields are
  selected without an exception and the two statements are issued with empty type and
  name, and then the test \<^verbatim>\<open>'authorList' in reference['citation']\<close> raises.
\<close>

lemma reference_without_citation:
  "reference_step (VDict [(''@key'', VStr ''1'')]) init =
     (Some (KeyError ''citation''),
      init\<lparr>log :=
        [CreateNode ''Reference'' [(''id'', VStr ''1''), (''type'', VStr ''''), (''name'', VStr '''')],
         CreateRel ''HAS_REFERENCE'' (''Protein'', [(''id_protein'', VStr ''Q9Y261'')])
           (''Reference'', [(''id'', VStr ''1''), (''type'', VStr ''''), (''name'', VStr '''')])]\<rparr>)"
  by (simp add: reference_step_def reference_id_def citation_field_def bind_e_def eval_then_def
      then_do_if run_all_eq reference_stmts_def protein_anchor_def init_def)

section \<open>The reference import on references that complete\<close>

lemma reference_okE:
  assumes "reference_ok r"
  obtains (plain) kvs cs where "r = VDict kvs" and "map_of kvs ''citation'' = Some (VDict cs)"
      and "map_of cs ''authorList'' = None"
  | (authors) kvs cs al where "r = VDict kvs" and "map_of kvs ''citation'' = Some (VDict cs)"
      and "map_of cs ''authorList'' = Some al" and "author_list_ok al"
proof -
  from assms obtain c where c: "getitem r ''citation'' = Inr c"
    by (cases "getitem r ''citation''") (simp_all add: reference_ok_def)
  then obtain kvs where kvs: "r = VDict kvs" "map_of kvs ''citation'' = Some c"
    by (rule getitem_InrE)
  from assms c obtain cs where cs: "c = VDict cs"
    by (cases c) (simp_all add: reference_ok_def)
  show ?thesis
  proof (cases "map_of cs ''authorList''")
    case None
    with kvs cs show ?thesis by (intro plain) simp_all
  next
    case (Some al)
    with assms c cs have "author_list_ok al"
      by (simp add: reference_ok_def)
    with kvs cs Some show ?thesis by (intro authors) simp_all
  qed
qed

lemma author_list_okE:
  assumes "author_list_ok al"
  obtains (nobody) as where "al = VDict as" and "map_of as ''person'' = None"
  | (persons) as ps where "al = VDict as" and "map_of as ''person'' = Some (VList ps)"
      and "list_all (has_key ''@name'') ps"
proof -
  from assms obtain as where as: "al = VDict as"
    by (cases al) (simp_all add: author_list_ok_def)
  show ?thesis
  proof (cases "map_of as ''person''")
    case None
    with as show ?thesis by (rule nobody)
  next
    case (Some v)
    with assms as obtain ps where "v = VList ps" and "list_all (has_key ''@name'') ps"
      by (cases v) (simp_all add: author_list_ok_def)
    with as Some show ?thesis by (intro persons) simp_all
  qed
qed

lemma reference_ok_citation: "reference_ok r \<Longrightarrow> citation_absent_or_dict r"
  by (erule reference_okE) (simp_all add: citation_absent_or_dict_def)

lemma insert_author_nobody:
  assumes "al = VDict as" and "map_of as ''person'' = None"
  shows "insert_author al i t n s = (None, s\<lparr>log := log s @ [], calls := calls s @ [Author]\<rparr>)"
  unfolding insert_author_def
  by (rule sub_importer_emits[where cs = "[]", simplified])
     (simp add: assms eval_then_Inr)

lemma insert_author_ok:
  assumes "author_list_ok al"
  shows "insert_author al i t n s =
     (None, s\<lparr>log := log s @ concat (map (spec_author_stmts [(''id'', i), (''type'', t), (''name'', n)])
                 (case getitem al ''person'' of Inl e \<Rightarrow> []
                  | Inr ps \<Rightarrow> (case ps of VList xs \<Rightarrow> xs | _ \<Rightarrow> []))),
       calls := calls s @ [Author]\<rparr>)"
  using assms
proof (cases rule: author_list_okE)
  case (nobody as)
  then show ?thesis
    using insert_author_nobody[OF nobody, of i t n s] by simp
next
  case (persons as ps)
  then have "getitem al ''person'' = Inr (VList ps)" by simp
  from insert_author_emits[OF this persons(3), of i t n s] this show ?thesis
    by (simp add: spec_author_stmts_def[abs_def])
qed

lemma reference_step_ok:
  assumes "reference_ok r"
  shows "reference_step r s =
     (None, s\<lparr>log := log s @ spec_reference_block r,
               calls := calls s @ (if has_author_list r then [Author] else [])\<rparr>)"
  using assms
proof (cases rule: reference_okE)
  case (plain kvs cs)
  then have test: "bind_e (getitem r ''citation'') (py_contains ''authorList'') = Inr False"
    by (simp add: bind_e_def)
  from plain have nobody: "spec_persons r = []"
    by (simp add: spec_persons_def bind_e_def)
  from test have no: "\<not> has_author_list r"
    by (simp add: has_author_list_def)
  have "reference_step r =
     then_do (run_all (reference_stmts (spec_reference_id r)
                (spec_citation_field r ''@type'') (spec_citation_field r ''@name''))) (Pair None)"
    by (simp only: reference_step_unfold[OF reference_ok_citation[OF assms]] test eval_then_Inr
        if_False)
  then show ?thesis
    by (simp add: then_do_if run_all_eq no nobody spec_reference_block_def reference_stmts_def
        spec_reference_key_def protein_anchor_def)
next
  case (authors kvs cs al)
  then have test: "bind_e (getitem r ''citation'') (py_contains ''authorList'') = Inr True"
    by (simp add: bind_e_def)
  from authors have list: "path r [''citation'', ''authorList''] = Inr al"
    by (simp add: bind_e_def)
  from authors have who: "spec_persons r =
      (case getitem al ''person'' of Inl e \<Rightarrow> []
       | Inr ps \<Rightarrow> (case ps of VList xs \<Rightarrow> xs | _ \<Rightarrow> []))"
    by (cases "getitem al ''person''") (simp_all add: spec_persons_def bind_e_def)
  from test have yes: "has_author_list r"
    by (simp add: has_author_list_def)
  have "reference_step r =
     then_do (run_all (reference_stmts (spec_reference_id r)
                (spec_citation_field r ''@type'') (spec_citation_field r ''@name'')))
       (insert_author al (spec_reference_id r)
          (spec_citation_field r ''@type'') (spec_citation_field r ''@name''))"
    by (simp only: reference_step_unfold[OF reference_ok_citation[OF assms]] test list
        eval_then_Inr if_True)
  then show ?thesis
    by (simp add: then_do_if run_all_eq insert_author_ok[OF authors(4)] yes who[symmetric]
        spec_reference_block_def reference_stmts_def spec_reference_key_def protein_anchor_def)
qed

lemma insert_reference_all_ok:
  assumes "path data [''uniprot'', ''entry'', ''reference''] = Inr (VList refs)"
    and "list_all reference_ok refs"
  shows "insert_reference data s =
     (None, s\<lparr>log := log s @ concat (map spec_reference_block refs),
               calls := calls s @ Reference #
                 concat (map (\<lambda>r. if has_author_list r then [Author] else []) refs)\<rparr>)"
proof -
  have loop: "for_each reference_step refs u =
      (None, u\<lparr>log := log u @ concat (map spec_reference_block refs),
                calls := calls u @ concat (map (\<lambda>r. if has_author_list r then [Author] else []) refs)\<rparr>)"
    for u
    by (rule for_each_all_succeed)
       (use assms(2) in \<open>simp add: list_all_iff reference_step_ok\<close>)
  have "insert_reference data = sub_importer Reference (for_each reference_step refs)"
    by (simp only: insert_reference_def assms(1) bind_e_Inr eval_then_Inr py_iter.simps)
  then show ?thesis
    by (simp add: sub_importer_emits[OF loop])
qed

lemma filter_author_stmts:
  "filter (creates ''Reference'') (concat (map (spec_author_stmts key) ps)) = []"
  "filter (relates ''HAS_REFERENCE'') (concat (map (spec_author_stmts key) ps)) = []"
  "filter (creates ''Author'') (concat (map (spec_author_stmts key) ps))
     = map (\<lambda>p. CreateNode ''Author'' [(''name'', projr (getitem p ''@name''))]) ps"
  "filter (relates ''HAS_AUTHOR'') (concat (map (spec_author_stmts key) ps))
     = map (\<lambda>p. CreateRel ''HAS_AUTHOR'' (''Reference'', key)
                  (''Author'', [(''name'', projr (getitem p ''@name''))])) ps"
  by (induction ps) (simp_all add: spec_author_stmts_def)

lemma filter_reference_blocks:
  "filter (creates ''Reference'') (concat (map spec_reference_block refs))
     = map (\<lambda>r. CreateNode ''Reference'' (spec_reference_key r)) refs"
  "filter (relates ''HAS_REFERENCE'') (concat (map spec_reference_block refs))
     = map (\<lambda>r. CreateRel ''HAS_REFERENCE'' (''Protein'', [(''id_protein'', VStr ''Q9Y261'')])
                  (''Reference'', spec_reference_key r)) refs"
  "filter (relates ''HAS_AUTHOR'') (concat (map spec_reference_block refs))
     = concat (map (\<lambda>r. map (\<lambda>p. CreateRel ''HAS_AUTHOR'' (''Reference'', spec_reference_key r)
                  (''Author'', [(''name'', projr (getitem p ''@name''))])) (spec_persons r)) refs)"
  "filter (creates ''Author'') (concat (map spec_reference_block refs))
     = concat (map (\<lambda>r. map (\<lambda>p. CreateNode ''Author'' [(''name'', projr (getitem p ''@name''))])
                  (spec_persons r)) refs)"
  by (induction refs) (simp_all add: spec_reference_block_def filter_author_stmts)

section \<open>Documents on which the import stops\<close>

lemmas importer_defs = insert_gene_def insert_feature_def insert_reference_def insert_author_def
  insert_fullname_def insert_organism_def gene_step_def gene_pred_def gene_conj_def
  feature_step_def feature_position_def reference_step_def reference_id_def citation_field_def
  person_step_def organism_step_def

lemma insert_reference_lone_person_doc:
  "insert_reference lone_person_doc init =
     (Some TypeError,
      init\<lparr>log := reference_stmts (VStr ''1'') (VStr ''journal article'') (VStr ''Genomics''),
           calls := [Reference, Author], open_drivers := 2\<rparr>)"
  by (simp add: importer_defs frame_defs lone_person_doc_def lone_person_references_def init_def)

text \<open>
  C4, as stated, fails for N = 1. The first reference of this entry has an author list
  with one person entry; the loop of \<^verbatim>\<open>insert_author\<close> runs over the keys of that dict
  and \<^verbatim>\<open>person['@name']\<close> raises: no Author node and no HAS_AUTHOR statement.
\<close>

theorem lone_author_not_imported:
  "path (hd lone_person_references) [''citation'', ''authorList'', ''person'']
     = Inr (VDict [(''@name'', VStr ''Yamada S.'')]) \<and>
   fst (insert_reference lone_person_doc init) = Some TypeError \<and>
   filter (creates ''Author'') (log (snd (insert_reference lone_person_doc init))) = [] \<and>
   filter (relates ''HAS_AUTHOR'') (log (snd (insert_reference lone_person_doc init))) = []"
  by (simp add: insert_reference_lone_person_doc)
     (simp add: lone_person_references_def reference_stmts_def bind_e_def)

lemma insert_reference_empty_citation_doc:
  "insert_reference empty_citation_doc init =
     (Some AttributeError, init\<lparr>calls := [Reference], open_drivers := 1\<rparr>)"
  by (simp add: importer_defs frame_defs empty_citation_doc_def init_def)

text \<open>
  C9, as stated, fails on references the import can receive. With an empty citation
  element in the first of two references, the selection of the type raises
  \<^verbatim>\<open>AttributeError\<close> and no Reference node is created for either element. With a single
  author in the first of two references, the author import raises and the second
  reference gets no node.
\<close>

theorem reference_node_not_unconditional:
  "fst (insert_reference empty_citation_doc init) = Some AttributeError \<and>
   log (snd (insert_reference empty_citation_doc init)) = [] \<and>
   length lone_person_references = 2 \<and>
   filter (creates ''Reference'') (log (snd (insert_reference lone_person_doc init)))
     = [CreateNode ''Reference''
          [(''id'', VStr ''1''), (''type'', VStr ''journal article''), (''name'', VStr ''Genomics'')]]"
  by (simp add: insert_reference_lone_person_doc insert_reference_empty_citation_doc)
     (simp add: lone_person_references_def reference_stmts_def init_def)


lemma reference_step_prefix:
  assumes "citation_absent_or_dict reference"
  shows "\<exists>rest. log (snd (reference_step reference s)) =
            log s @ [CreateNode ''Reference'' (spec_reference_key reference),
                     CreateRel ''HAS_REFERENCE'' (''Protein'', [(''id_protein'', VStr ''Q9Y261'')])
                       (''Reference'', spec_reference_key reference)] @ rest"
proof -
  let ?g = "eval_then (bind_e (getitem reference ''citation'') (py_contains ''authorList'')) (\<lambda>b.
          if b then
            eval_then (path reference [''citation'', ''authorList'']) (\<lambda>authorList.
              insert_author authorList (spec_reference_id reference)
                (spec_citation_field reference ''@type'') (spec_citation_field reference ''@name''))
          else Pair None)"
  have "regular ?g"
    by (intro regular_intros regular_insert_author)
  from then_do_run_all_log[OF this, of "reference_stmts (spec_reference_id reference)
                (spec_citation_field reference ''@type'') (spec_citation_field reference ''@name'')" s]
  obtain rest where "log (snd (reference_step reference s)) =
      log s @ reference_stmts (spec_reference_id reference)
                (spec_citation_field reference ''@type'') (spec_citation_field reference ''@name'') @ rest"
    unfolding reference_step_unfold[OF assms] by blast
  then show ?thesis
    by (intro exI[of _ rest])
       (simp add: reference_stmts_def spec_reference_key_def protein_anchor_def)
qed

lemma reference_step_no_author_list:
  assumes "citation_absent_or_dict reference"
    and "path reference [''citation'', ''authorList''] = Inl (KeyError ''authorList'')"
  shows "reference_step reference s =
              (None, s\<lparr>log := log s @
                 [CreateNode ''Reference'' (spec_reference_key reference),
                  CreateRel ''HAS_REFERENCE'' (''Protein'', [(''id_protein'', VStr ''Q9Y261'')])
                    (''Reference'', spec_reference_key reference)]\<rparr>)"
proof -
  from assms have "bind_e (getitem reference ''citation'') (py_contains ''authorList'') = Inr False"
    by (auto elim!: citation_absent_or_dictE simp: bind_e_def split: option.splits)
  then show ?thesis
    by (simp add: reference_step_unfold[OF assms(1)] reference_stmts_def spec_reference_key_def
        protein_anchor_def then_do_if run_all_eq eval_then_Inr)
qed

text \<open>
  C9 as amended. The reference import has no selection. For a reference element that
  is a dict whose citation is absent or a dict, the selection of the three key fields
  raises nothing and gives the \<^verbatim>\<open>'@key'\<close>, the citation's \<^verbatim>\<open>'@type'\<close> and the citation's
  \<^verbatim>\<open>'@name'\<close>, each the empty string when absent, and the loop body, once it reaches
  the element, issues the creation of the Reference node and the HAS_REFERENCE statement
  with exactly these values; when the citation is a dict without an author list, the
  element raises nothing. When the references are a list of elements whose import
  completes (the citation a dict, its author list, if any, a dict whose persons, if
  any, are a list of dicts with a name), \<^verbatim>\<open>insert_reference\<close> raises nothing and issues
  for every element of the list, in order, its Reference node and its HAS_REFERENCE
  statement.
\<close>

theorem reference_created_with_defaults:
  "(citation_absent_or_dict reference \<longrightarrow>
      reference_id reference = Inr (spec_reference_id reference) \<and>
      citation_field reference ''@type'' = Inr (spec_citation_field reference ''@type'') \<and>
      citation_field reference ''@name'' = Inr (spec_citation_field reference ''@name'') \<and>
      (\<exists>rest. log (snd (reference_step reference s)) =
         log s @ [CreateNode ''Reference'' (spec_reference_key reference),
                  CreateRel ''HAS_REFERENCE'' (''Protein'', [(''id_protein'', VStr ''Q9Y261'')])
                    (''Reference'', spec_reference_key reference)] @ rest)) \<and>
   (citation_absent_or_dict reference \<and>
    path reference [''citation'', ''authorList''] = Inl (KeyError ''authorList'') \<longrightarrow>
      reference_step reference s =
        (None, s\<lparr>log := log s @
           [CreateNode ''Reference'' (spec_reference_key reference),
            CreateRel ''HAS_REFERENCE'' (''Protein'', [(''id_protein'', VStr ''Q9Y261'')])
              (''Reference'', spec_reference_key reference)]\<rparr>)) \<and>
   (path data [''uniprot'', ''entry'', ''reference''] = Inr (VList refs) \<and>
    list_all reference_ok refs \<longrightarrow>
      insert_reference data s =
        (None, s\<lparr>log := log s @ concat (map spec_reference_block refs),
                  calls := calls s @ Reference #
                    concat (map (\<lambda>r. if has_author_list r then [Author] else []) refs)\<rparr>) \<and>
      filter (creates ''Reference'') (concat (map spec_reference_block refs))
        = map (\<lambda>r. CreateNode ''Reference'' (spec_reference_key r)) refs \<and>
      filter (relates ''HAS_REFERENCE'') (concat (map spec_reference_block refs))
        = map (\<lambda>r. CreateRel ''HAS_REFERENCE'' (''Protein'', [(''id_protein'', VStr ''Q9Y261'')])
                     (''Reference'', spec_reference_key r)) refs)"
proof (intro conjI impI)
  assume "path data [''uniprot'', ''entry'', ''reference''] = Inr (VList refs) \<and>
    list_all reference_ok refs"
  then show "insert_reference data s =
        (None, s\<lparr>log := log s @ concat (map spec_reference_block refs),
                  calls := calls s @ Reference #
                    concat (map (\<lambda>r. if has_author_list r then [Author] else []) refs)\<rparr>)"
    by (intro insert_reference_all_ok) simp_all
next
  assume "citation_absent_or_dict reference \<and>
    path reference [''citation'', ''authorList''] = Inl (KeyError ''authorList'')"
  then show "reference_step reference s =
        (None, s\<lparr>log := log s @
           [CreateNode ''Reference'' (spec_reference_key reference),
            CreateRel ''HAS_REFERENCE'' (''Protein'', [(''id_protein'', VStr ''Q9Y261'')])
              (''Reference'', spec_reference_key reference)]\<rparr>)"
    by (intro reference_step_no_author_list) simp_all
next
  assume "citation_absent_or_dict reference"
  then show "\<exists>rest. log (snd (reference_step reference s)) =
         log s @ [CreateNode ''Reference'' (spec_reference_key reference),
                  CreateRel ''HAS_REFERENCE'' (''Protein'', [(''id_protein'', VStr ''Q9Y261'')])
                    (''Reference'', spec_reference_key reference)] @ rest"
    by (rule reference_step_prefix)
qed (simp_all add: reference_fields filter_reference_blocks)

theorem reference_created_with_defaults_witness:
  "citation_absent_or_dict bare_reference \<and>
   path bare_reference [''citation'', ''authorList''] = Inl (KeyError ''authorList'') \<and>
   reference_id bare_reference = Inr (VStr '''') \<and>
   reference_step bare_reference init =
     (None, init\<lparr>log :=
        [CreateNode ''Reference'' [(''id'', VStr ''''), (''type'', VStr ''''), (''name'', VStr '''')],
         CreateRel ''HAS_REFERENCE'' (''Protein'', [(''id_protein'', VStr ''Q9Y261'')])
           (''Reference'', [(''id'', VStr ''''), (''type'', VStr ''''), (''name'', VStr '''')])]\<rparr>) \<and>
   path sample_doc [''uniprot'', ''entry'', ''reference''] = Inr (VList sample_references) \<and>
   list_all reference_ok sample_references \<and>
   insert_reference sample_doc init =
     (None, init\<lparr>log :=
        reference_stmts (VStr ''1'') (VStr ''journal article'') (VStr ''Genomics'') @
        author_stmts (VStr ''1'') (VStr ''journal article'') (VStr ''Genomics'') (VStr ''Yamada S.'') @
        author_stmts (VStr ''1'') (VStr ''journal article'') (VStr ''Genomics'') (VStr ''Zhu Q.'') @
        reference_stmts (VStr ''2'') (VStr ''submission'') (VStr ''''),
       calls := [Reference, Author, Author]\<rparr>)"
proof -
  have c: "citation_absent_or_dict bare_reference"
    by (simp add: citation_absent_or_dict_def bare_reference_def)
  have a: "path bare_reference [''citation'', ''authorList''] = Inl (KeyError ''authorList'')"
    by (simp add: bare_reference_def bind_e_def)
  have k: "spec_reference_key bare_reference =
             [(''id'', VStr ''''), (''type'', VStr ''''), (''name'', VStr '''')]"
    and i: "spec_reference_id bare_reference = VStr ''''"
    by (simp_all add: spec_reference_key_def spec_reference_id_def spec_citation_field_def
        bare_reference_def bind_e_def)
  note one = reference_created_with_defaults[where reference = bare_reference and s = init]
  from one c i have 1: "reference_id bare_reference = Inr (VStr '''')"
    by simp
  from one c a have "reference_step bare_reference init =
     (None, init\<lparr>log := log init @
        [CreateNode ''Reference'' (spec_reference_key bare_reference),
         CreateRel ''HAS_REFERENCE'' (''Protein'', [(''id_protein'', VStr ''Q9Y261'')])
           (''Reference'', spec_reference_key bare_reference)]\<rparr>)"
    by blast
  with k have 2: "reference_step bare_reference init =
     (None, init\<lparr>log :=
        [CreateNode ''Reference'' [(''id'', VStr ''''), (''type'', VStr ''''), (''name'', VStr '''')],
         CreateRel ''HAS_REFERENCE'' (''Protein'', [(''id_protein'', VStr ''Q9Y261'')])
           (''Reference'', [(''id'', VStr ''''), (''type'', VStr ''''), (''name'', VStr '''')])]\<rparr>)"
    by (simp add: init_def)
  have p: "path sample_doc [''uniprot'', ''entry'', ''reference''] = Inr (VList sample_references)"
    by (simp add: sample_doc_def bind_e_def)
  have ok: "list_all reference_ok sample_references"
    by (simp add: sample_references_def reference_ok_def author_list_ok_def has_key_def)
  have blocks: "concat (map spec_reference_block sample_references) =
        reference_stmts (VStr ''1'') (VStr ''journal article'') (VStr ''Genomics'') @
        author_stmts (VStr ''1'') (VStr ''journal article'') (VStr ''Genomics'') (VStr ''Yamada S.'') @
        author_stmts (VStr ''1'') (VStr ''journal article'') (VStr ''Genomics'') (VStr ''Zhu Q.'') @
        reference_stmts (VStr ''2'') (VStr ''submission'') (VStr '''')"
    by (simp add: sample_references_def spec_reference_block_def spec_reference_key_def
        spec_reference_id_def spec_citation_field_def spec_persons_def spec_author_stmts_def
        reference_stmts_def author_stmts_def protein_anchor_def bind_e_def)
  have who: "concat (map (\<lambda>r. if has_author_list r then [Author] else []) sample_references)
      = [Author, Author]"
    by (simp add: sample_references_def has_author_list_def bind_e_def)
  from reference_created_with_defaults[where data = sample_doc and refs = sample_references
      and s = init] p ok
  have "insert_reference sample_doc init =
        (None, init\<lparr>log := log init @ concat (map spec_reference_block sample_references),
                  calls := calls init @ Reference #
                    concat (map (\<lambda>r. if has_author_list r then [Author] else []) sample_references)\<rparr>)"
    by blast
  then have 3: "insert_reference sample_doc init =
     (None, init\<lparr>log :=
        reference_stmts (VStr ''1'') (VStr ''journal article'') (VStr ''Genomics'') @
        author_stmts (VStr ''1'') (VStr ''journal article'') (VStr ''Genomics'') (VStr ''Yamada S.'') @
        author_stmts (VStr ''1'') (VStr ''journal article'') (VStr ''Genomics'') (VStr ''Zhu Q.'') @
        reference_stmts (VStr ''2'') (VStr ''submission'') (VStr ''''),
       calls := [Reference, Author, Author]\<rparr>)"
    by (simp only: blocks who) (simp add: init_def)
  from c a 1 2 p ok 3 show ?thesis by (intro conjI)
qed

lemma reference_step_with_persons:
  assumes "path reference [''citation'', ''authorList'', ''person''] = Inr (VList persons)"
    and "list_all (has_key ''@name'') persons"
  shows "reference_step reference s =
     (None, s\<lparr>log := log s @
        [CreateNode ''Reference'' (spec_reference_key reference),
         CreateRel ''HAS_REFERENCE'' (''Protein'', [(''id_protein'', VStr ''Q9Y261'')])
           (''Reference'', spec_reference_key reference)] @
        concat (map (\<lambda>p.
          [CreateNode ''Author'' [(''name'', projr (getitem p ''@name''))],
           CreateRel ''HAS_AUTHOR'' (''Reference'', spec_reference_key reference)
             (''Author'', [(''name'', projr (getitem p ''@name''))])]) persons),
       calls := calls s @ [Author]\<rparr>) \<and>
     length (filter (creates ''Author'')
       (drop (length (log s)) (log (snd (reference_step reference s))))) = length persons \<and>
     length (filter (relates ''HAS_AUTHOR'')
       (drop (length (log s)) (log (snd (reference_step reference s))))) = length persons"
proof -
  let ?authors = "concat (map (\<lambda>p.
          [CreateNode ''Author'' [(''name'', projr (getitem p ''@name''))],
           CreateRel ''HAS_AUTHOR'' (''Reference'', spec_reference_key reference)
             (''Author'', [(''name'', projr (getitem p ''@name''))])]) persons)"
  from assms(1) obtain c where c: "getitem reference ''citation'' = Inr c"
    and pc: "path c [''authorList'', ''person''] = Inr (VList persons)"
    by (rule path_ConsE)
  from pc obtain al where al: "getitem c ''authorList'' = Inr al"
    and pal: "path al [''person''] = Inr (VList persons)"
    by (rule path_ConsE)
  from pal have person: "getitem al ''person'' = Inr (VList persons)"
    by (cases "getitem al ''person''") (simp_all add: bind_e_def)
  from c obtain kvs where kvs: "reference = VDict kvs" "map_of kvs ''citation'' = Some c"
    by (rule getitem_InrE)
  from al obtain cs where cs: "c = VDict cs" "map_of cs ''authorList'' = Some al"
    by (rule getitem_InrE)
  have wf: "citation_absent_or_dict reference"
    using kvs cs by (simp add: citation_absent_or_dict_def)
  have test: "bind_e (getitem reference ''citation'') (py_contains ''authorList'') = Inr True"
    using kvs cs by (simp add: bind_e_def)
  have list: "path reference [''citation'', ''authorList''] = Inr al"
    using kvs cs by (simp add: bind_e_def)
  have step: "reference_step reference s =
     (None, s\<lparr>log := log s @
        [CreateNode ''Reference'' (spec_reference_key reference),
         CreateRel ''HAS_REFERENCE'' (''Protein'', [(''id_protein'', VStr ''Q9Y261'')])
           (''Reference'', spec_reference_key reference)] @ ?authors,
       calls := calls s @ [Author]\<rparr>)"
  proof -
    have "reference_step reference =
       then_do (run_all (reference_stmts (spec_reference_id reference)
                  (spec_citation_field reference ''@type'') (spec_citation_field reference ''@name'')))
         (insert_author al (spec_reference_id reference)
            (spec_citation_field reference ''@type'') (spec_citation_field reference ''@name''))"
      by (simp only: reference_step_unfold[OF wf] test list eval_then_Inr if_True)
    then show ?thesis
      by (simp add: then_do_if run_all_eq insert_author_emits[OF person assms(2)]
          reference_stmts_def spec_reference_key_def protein_anchor_def)
  qed
  have "length (filter (creates ''Author'') ?authors) = length persons"
    by (induction persons) simp_all
  moreover have "length (filter (relates ''HAS_AUTHOR'') ?authors) = length persons"
    by (induction persons) simp_all
  ultimately show ?thesis
    by (simp add: step)
qed

text \<open>
  C4 as amended. When the loop of \<^verbatim>\<open>insert_reference\<close> reaches a reference whose
  citation has an author list whose person entries are a list \<open>persons\<close> of dicts that
  each have a \<^verbatim>\<open>'@name'\<close>, it raises nothing and issues, after the two statements for
  the reference itself, for each person in order the creation of an Author node and a
  HAS_AUTHOR statement whose anchor is the Reference pattern with the id, type and name
  of this very reference: as many Author nodes and as many HAS_AUTHOR statements as there
  are persons, whatever was issued before. Over a whole list of references whose import
  completes, the Author nodes and the HAS_AUTHOR statements issued are, reference by
  reference, one per person of that reference, each HAS_AUTHOR statement anchored on the
  key properties of the reference the person belongs to.
\<close>

theorem author_cascade:
  "(path reference [''citation'', ''authorList'', ''person''] = Inr (VList persons) \<and>
    list_all (has_key ''@name'') persons \<longrightarrow>
      reference_step reference s =
        (None, s\<lparr>log := log s @
           [CreateNode ''Reference'' (spec_reference_key reference),
            CreateRel ''HAS_REFERENCE'' (''Protein'', [(''id_protein'', VStr ''Q9Y261'')])
              (''Reference'', spec_reference_key reference)] @
           concat (map (\<lambda>p.
             [CreateNode ''Author'' [(''name'', projr (getitem p ''@name''))],
              CreateRel ''HAS_AUTHOR'' (''Reference'', spec_reference_key reference)
                (''Author'', [(''name'', projr (getitem p ''@name''))])]) persons),
          calls := calls s @ [Author]\<rparr>) \<and>
      length (filter (creates ''Author'')
        (drop (length (log s)) (log (snd (reference_step reference s))))) = length persons \<and>
      length (filter (relates ''HAS_AUTHOR'')
        (drop (length (log s)) (log (snd (reference_step reference s))))) = length persons) \<and>
   (path data [''uniprot'', ''entry'', ''reference''] = Inr (VList refs) \<and>
    list_all reference_ok refs \<longrightarrow>
      fst (insert_reference data s) = None \<and>
      filter (creates ''Author'') (drop (length (log s)) (log (snd (insert_reference data s))))
        = concat (map (\<lambda>r. map (\<lambda>p. CreateNode ''Author'' [(''name'', projr (getitem p ''@name''))])
                    (spec_persons r)) refs) \<and>
      filter (relates ''HAS_AUTHOR'') (drop (length (log s)) (log (snd (insert_reference data s))))
        = concat (map (\<lambda>r. map (\<lambda>p. CreateRel ''HAS_AUTHOR'' (''Reference'', spec_reference_key r)
                    (''Author'', [(''name'', projr (getitem p ''@name''))])) (spec_persons r)) refs))"
proof (intro conjI impI)
  assume a: "path reference [''citation'', ''authorList'', ''person''] = Inr (VList persons) \<and>
    list_all (has_key ''@name'') persons"
  note r = reference_step_with_persons[OF conjunct1[OF a] conjunct2[OF a], of s]
  from r show "reference_step reference s =
        (None, s\<lparr>log := log s @
           [CreateNode ''Reference'' (spec_reference_key reference),
            CreateRel ''HAS_REFERENCE'' (''Protein'', [(''id_protein'', VStr ''Q9Y261'')])
              (''Reference'', spec_reference_key reference)] @
           concat (map (\<lambda>p.
             [CreateNode ''Author'' [(''name'', projr (getitem p ''@name''))],
              CreateRel ''HAS_AUTHOR'' (''Reference'', spec_reference_key reference)
                (''Author'', [(''name'', projr (getitem p ''@name''))])]) persons),
          calls := calls s @ [Author]\<rparr>)"
    by (rule conjunct1)
  from r show "length (filter (creates ''Author'')
        (drop (length (log s)) (log (snd (reference_step reference s))))) = length persons"
    by blast
  from r show "length (filter (relates ''HAS_AUTHOR'')
        (drop (length (log s)) (log (snd (reference_step reference s))))) = length persons"
    by blast
next
  assume b: "path data [''uniprot'', ''entry'', ''reference''] = Inr (VList refs) \<and>
    list_all reference_ok refs"
  note r = insert_reference_all_ok[OF conjunct1[OF b] conjunct2[OF b], of s]
  from r show "fst (insert_reference data s) = None"
    by simp
  from r show "filter (creates ''Author'') (drop (length (log s)) (log (snd (insert_reference data s))))
        = concat (map (\<lambda>r. map (\<lambda>p. CreateNode ''Author'' [(''name'', projr (getitem p ''@name''))])
                    (spec_persons r)) refs)"
    by (simp add: filter_reference_blocks)
  from r show "filter (relates ''HAS_AUTHOR'') (drop (length (log s)) (log (snd (insert_reference data s))))
        = concat (map (\<lambda>r. map (\<lambda>p. CreateRel ''HAS_AUTHOR'' (''Reference'', spec_reference_key r)
                    (''Author'', [(''name'', projr (getitem p ''@name''))])) (spec_persons r)) refs)"
    by (simp add: filter_reference_blocks)
qed

theorem author_cascade_witness:
  "path (hd sample_references) [''citation'', ''authorList'', ''person''] =
     Inr (VList [VDict [(''@name'', VStr ''Yamada S.'')], VDict [(''@name'', VStr ''Zhu Q.'')]]) \<and>
   list_all (has_key ''@name'')
     [VDict [(''@name'', VStr ''Yamada S.'')], VDict [(''@name'', VStr ''Zhu Q.'')]] \<and>
   reference_step (hd sample_references) init =
     (None, init\<lparr>log :=
        reference_stmts (VStr ''1'') (VStr ''journal article'') (VStr ''Genomics'') @
        author_stmts (VStr ''1'') (VStr ''journal article'') (VStr ''Genomics'') (VStr ''Yamada S.'') @
        author_stmts (VStr ''1'') (VStr ''journal article'') (VStr ''Genomics'') (VStr ''Zhu Q.''),
       calls := [Author]\<rparr>) \<and>
   path sample_doc [''uniprot'', ''entry'', ''reference''] = Inr (VList sample_references) \<and>
   list_all reference_ok sample_references \<and>
   filter (relates ''HAS_AUTHOR'') (log (snd (insert_reference sample_doc init))) =
     [CreateRel ''HAS_AUTHOR''
        (''Reference'', [(''id'', VStr ''1''), (''type'', VStr ''journal article''),
                         (''name'', VStr ''Genomics'')])
        (''Author'', [(''name'', VStr ''Yamada S.'')]),
      CreateRel ''HAS_AUTHOR''
        (''Reference'', [(''id'', VStr ''1''), (''type'', VStr ''journal article''),
                         (''name'', VStr ''Genomics'')])
        (''Author'', [(''name'', VStr ''Zhu Q.'')])]"
proof -
  have p: "path (hd sample_references) [''citation'', ''authorList'', ''person''] =
     Inr (VList [VDict [(''@name'', VStr ''Yamada S.'')], VDict [(''@name'', VStr ''Zhu Q.'')]])"
    by (simp add: sample_references_def bind_e_def)
  have k: "list_all (has_key ''@name'')
     [VDict [(''@name'', VStr ''Yamada S.'')], VDict [(''@name'', VStr ''Zhu Q.'')]]"
    by (simp add: has_key_def)
  have key: "spec_reference_key (hd sample_references) =
      [(''id'', VStr ''1''), (''type'', VStr ''journal article''), (''name'', VStr ''Genomics'')]"
    by (simp add: spec_reference_key_def spec_reference_id_def spec_citation_field_def
        sample_references_def bind_e_def)
  from author_cascade[where reference = "hd sample_references" and s = init
      and persons = "[VDict [(''@name'', VStr ''Yamada S.'')], VDict [(''@name'', VStr ''Zhu Q.'')]]"]
    p k
  have "reference_step (hd sample_references) init =
        (None, init\<lparr>log := log init @
           [CreateNode ''Reference'' (spec_reference_key (hd sample_references)),
            CreateRel ''HAS_REFERENCE'' (''Protein'', [(''id_protein'', VStr ''Q9Y261'')])
              (''Reference'', spec_reference_key (hd sample_references))] @
           concat (map (\<lambda>p.
             [CreateNode ''Author'' [(''name'', projr (getitem p ''@name''))],
              CreateRel ''HAS_AUTHOR'' (''Reference'', spec_reference_key (hd sample_references))
                (''Author'', [(''name'', projr (getitem p ''@name''))])])
             [VDict [(''@name'', VStr ''Yamada S.'')], VDict [(''@name'', VStr ''Zhu Q.'')]]),
          calls := calls init @ [Author]\<rparr>)"
    by blast
  then have 1: "reference_step (hd sample_references) init =
     (None, init\<lparr>log :=
        reference_stmts (VStr ''1'') (VStr ''journal article'') (VStr ''Genomics'') @
        author_stmts (VStr ''1'') (VStr ''journal article'') (VStr ''Genomics'') (VStr ''Yamada S.'') @
        author_stmts (VStr ''1'') (VStr ''journal article'') (VStr ''Genomics'') (VStr ''Zhu Q.''),
       calls := [Author]\<rparr>)"
    by (simp add: key init_def reference_stmts_def author_stmts_def protein_anchor_def)
  have q: "path sample_doc [''uniprot'', ''entry'', ''reference''] = Inr (VList sample_references)"
    by (simp add: sample_doc_def bind_e_def)
  have ok: "list_all reference_ok sample_references"
    by (simp add: sample_references_def reference_ok_def author_list_ok_def has_key_def)
  have who: "concat (map (\<lambda>r. map (\<lambda>p. CreateRel ''HAS_AUTHOR'' (''Reference'', spec_reference_key r)
                    (''Author'', [(''name'', projr (getitem p ''@name''))])) (spec_persons r))
              sample_references) =
     [CreateRel ''HAS_AUTHOR''
        (''Reference'', [(''id'', VStr ''1''), (''type'', VStr ''journal article''),
                         (''name'', VStr ''Genomics'')])
        (''Author'', [(''name'', VStr ''Yamada S.'')]),
      CreateRel ''HAS_AUTHOR''
        (''Reference'', [(''id'', VStr ''1''), (''type'', VStr ''journal article''),
                         (''name'', VStr ''Genomics'')])
        (''Author'', [(''name'', VStr ''Zhu Q.'')])]"
    by (simp add: sample_references_def spec_reference_key_def spec_reference_id_def
        spec_citation_field_def spec_persons_def bind_e_def)
  from author_cascade[where data = sample_doc and refs = sample_references and s = init] q ok
  have "filter (relates ''HAS_AUTHOR'')
          (drop (length (log init)) (log (snd (insert_reference sample_doc init))))
        = concat (map (\<lambda>r. map (\<lambda>p. CreateRel ''HAS_AUTHOR'' (''Reference'', spec_reference_key r)
                    (''Author'', [(''name'', projr (getitem p ''@name''))])) (spec_persons r))
              sample_references)"
    by blast
  then have 2: "filter (relates ''HAS_AUTHOR'') (log (snd (insert_reference sample_doc init))) =
     [CreateRel ''HAS_AUTHOR''
        (''Reference'', [(''id'', VStr ''1''), (''type'', VStr ''journal article''),
                         (''name'', VStr ''Genomics'')])
        (''Author'', [(''name'', VStr ''Yamada S.'')]),
      CreateRel ''HAS_AUTHOR''
        (''Reference'', [(''id'', VStr ''1''), (''type'', VStr ''journal article''),
                         (''name'', VStr ''Genomics'')])
        (''Author'', [(''name'', VStr ''Zhu Q.'')])]"
    by (simp only: who) (simp add: init_def)
  from p k 1 q ok 2 show ?thesis by (intro conjI)
qed

section \<open>Every loop, on one element and on a single dict\<close>

lemma feature_step_key: "feature_step (VStr k) s = (Some TypeError, s)"
  by (simp add: feature_step_def feature_position_def bind_e_def eval_then_def)

lemma organism_step_key: "organism_step (VStr k) s = (Some TypeError, s)"
  by (simp add: organism_step_def eval_then_def)

lemma reference_step_key:
  "reference_step (VStr k) s = (Some (if sublist ''@key'' k then TypeError else AttributeError), s)"
  by (simp add: reference_step_def reference_id_def citation_field_def bind_e_def eval_then_def)

lemma insert_feature_single_dict:
  assumes "path data [''uniprot'', ''entry'', ''feature''] = Inr (VDict (kv # kvs))"
  shows "insert_feature data s =
     (Some TypeError, s\<lparr>calls := calls s @ [Feature], open_drivers := Suc (open_drivers s)\<rparr>)"
  unfolding insert_feature_def
  by (rule sub_importer_raises)
     (simp only: assms bind_e_Inr eval_then_Inr py_iter.simps list.map for_each.simps
        feature_step_key fst_conv prod.case option.case)

lemma insert_organism_single_dict:
  assumes "path data [''uniprot'', ''entry'', ''organism'', ''name''] = Inr (VDict (kv # kvs))"
  shows "insert_organism data s =
     (Some TypeError, s\<lparr>calls := calls s @ [Organism], open_drivers := Suc (open_drivers s)\<rparr>)"
  unfolding insert_organism_def
  by (rule sub_importer_raises)
     (simp only: assms bind_e_Inr eval_then_Inr py_iter.simps list.map for_each.simps
        organism_step_key fst_conv prod.case option.case)

lemma insert_reference_single_dict:
  assumes "path data [''uniprot'', ''entry'', ''reference''] = Inr (VDict (kv # kvs))"
  shows "insert_reference data s =
     (Some (if sublist ''@key'' (fst kv) then TypeError else AttributeError),
      s\<lparr>calls := calls s @ [Reference], open_drivers := Suc (open_drivers s)\<rparr>)"
  unfolding insert_reference_def
  by (rule sub_importer_raises)
     (simp only: assms bind_e_Inr eval_then_Inr py_iter.simps list.map for_each.simps
        reference_step_key fst_conv prod.case option.case)

lemma insert_feature_one_element:
  assumes "path data [''uniprot'', ''entry'', ''feature''] = Inr (VList [x])"
    and "feature_position x = Inr p" and "getitem x ''@description'' = Inr nm"
    and "getitem x ''@type'' = Inr ty"
  shows "insert_feature data s =
     (None, s\<lparr>log := log s @
        (if p = VStr ''307'' \<and> nm = VStr ''Phosphoserine'' \<and> ty = VStr ''modified residue''
         then [CreateNode ''Feature'' [(''name'', nm), (''type'', ty)],
               CreateRel ''HAS_FEATURE'' (''Protein'', [(''id_protein'', VStr ''Q9Y261'')])
                 (''Feature'', [(''name'', nm), (''type'', ty)])]
         else []),
       calls := calls s @ [Feature]\<rparr>)"
proof -
  have "insert_feature data = sub_importer Feature (for_each feature_step [x])"
    by (simp only: insert_feature_def assms(1) bind_e_Inr eval_then_Inr py_iter.simps)
  moreover have "for_each feature_step [x] u = (None, u\<lparr>log := log u @
        (if p = VStr ''307'' \<and> nm = VStr ''Phosphoserine'' \<and> ty = VStr ''modified residue''
         then [CreateNode ''Feature'' [(''name'', nm), (''type'', ty)],
               CreateRel ''HAS_FEATURE'' (''Protein'', [(''id_protein'', VStr ''Q9Y261'')])
                 (''Feature'', [(''name'', nm), (''type'', ty)])]
         else [])\<rparr>)" for u
    by (simp add: feature_step_def assms(2-4) eval_then_Inr run_all_eq feature_stmts_def
        protein_anchor_def)
  ultimately show ?thesis
    by (simp add: sub_importer_emits[where cs = "[]"])
qed

text \<open>
  C7 as amended. No method makes a list of what it iterates over; each of the five
  loops runs directly over the value found in the document. Over a list of one element
  the loop body runs once on that element: a gene name of the expected shape, a feature
  with position, description and type, a reference whose import completes, an organism
  name with text and a person with a name are each filtered and, when selected,
  imported. Over a single element given as a non-empty dict the loop runs over the
  dict's keys, and the first key, a string, raises before anything is issued for it and
  the driver stays open: a \<^verbatim>\<open>TypeError\<close> in the loops over gene names, features, organism
  names and persons; in the loop over references a \<^verbatim>\<open>TypeError\<close> when that key contains
  \<^verbatim>\<open>'@key'\<close> and an \<^verbatim>\<open>AttributeError\<close> otherwise.
\<close>

theorem iterates_without_normalising:
  "(path data [''uniprot'', ''entry'', ''gene'', ''name''] = Inr (VList [g]) \<and> gene_shaped g \<longrightarrow>
      insert_gene data s =
        (None, s\<lparr>log := log s @
           (if spec_gene_selected g
            then [CreateNode ''Gene'' [(''name'', projr (getitem g ''#text''))],
                  CreateRel ''FROM_GENE'' (''Protein'', [(''id_protein'', VStr ''Q9Y261'')])
                    (''Gene'', [(''name'', projr (getitem g ''#text''))])]
            else []),
          calls := calls s @ [Gene]\<rparr>)) \<and>
   (path data [''uniprot'', ''entry'', ''gene'', ''name''] = Inr (VDict (kv # kvs)) \<longrightarrow>
      insert_gene data s =
        (Some TypeError, s\<lparr>calls := calls s @ [Gene], open_drivers := Suc (open_drivers s)\<rparr>)) \<and>
   (path data [''uniprot'', ''entry'', ''feature''] = Inr (VList [x]) \<and>
    feature_position x = Inr q \<and> getitem x ''@description'' = Inr nm \<and>
    getitem x ''@type'' = Inr ty \<longrightarrow>
      insert_feature data s =
        (None, s\<lparr>log := log s @
           (if q = VStr ''307'' \<and> nm = VStr ''Phosphoserine'' \<and> ty = VStr ''modified residue''
            then [CreateNode ''Feature'' [(''name'', nm), (''type'', ty)],
                  CreateRel ''HAS_FEATURE'' (''Protein'', [(''id_protein'', VStr ''Q9Y261'')])
                    (''Feature'', [(''name'', nm), (''type'', ty)])]
            else []),
          calls := calls s @ [Feature]\<rparr>)) \<and>
   (path data [''uniprot'', ''entry'', ''feature''] = Inr (VDict (kv # kvs)) \<longrightarrow>
      insert_feature data s =
        (Some TypeError, s\<lparr>calls := calls s @ [Feature], open_drivers := Suc (open_drivers s)\<rparr>)) \<and>
   (path data [''uniprot'', ''entry'', ''reference''] = Inr (VList [r]) \<and> reference_ok r \<longrightarrow>
      insert_reference data s =
        (None, s\<lparr>log := log s @ spec_reference_block r,
                  calls := calls s @ Reference # (if has_author_list r then [Author] else [])\<rparr>)) \<and>
   (path data [''uniprot'', ''entry'', ''reference''] = Inr (VDict (kv # kvs)) \<longrightarrow>
      insert_reference data s =
        (Some (if sublist ''@key'' (fst kv) then TypeError else AttributeError),
         s\<lparr>calls := calls s @ [Reference], open_drivers := Suc (open_drivers s)\<rparr>)) \<and>
   (path data [''uniprot'', ''entry'', ''organism'', ''name''] = Inr (VList [z]) \<and>
    has_key ''#text'' z \<longrightarrow>
      insert_organism data s =
        (None, s\<lparr>log := log s @
           (if getitem z ''#text'' = Inr (VStr ''Homo sapiens'')
            then [CreateNode ''Organism''
                    [(''name'', VStr ''Homo sapiens''), (''taxonomy_id'', VStr ''9606'')],
                  CreateRel ''IN_ORGANISM'' (''Protein'', [(''id_protein'', VStr ''Q9Y261'')])
                    (''Organism'',
                     [(''name'', VStr ''Homo sapiens''), (''taxonomy_id'', VStr ''9606'')])]
            else []),
          calls := calls s @ [Organism]\<rparr>)) \<and>
   (path data [''uniprot'', ''entry'', ''organism'', ''name''] = Inr (VDict (kv # kvs)) \<longrightarrow>
      insert_organism data s =
        (Some TypeError, s\<lparr>calls := calls s @ [Organism], open_drivers := Suc (open_drivers s)\<rparr>)) \<and>
   (getitem al ''person'' = Inr (VList [p]) \<and> has_key ''@name'' p \<longrightarrow>
      insert_author al i t n s =
        (None, s\<lparr>log := log s @
           [CreateNode ''Author'' [(''name'', projr (getitem p ''@name''))],
            CreateRel ''HAS_AUTHOR'' (''Reference'', [(''id'', i), (''type'', t), (''name'', n)])
              (''Author'', [(''name'', projr (getitem p ''@name''))])],
          calls := calls s @ [Author]\<rparr>)) \<and>
   (getitem al ''person'' = Inr (VDict (kv # kvs)) \<longrightarrow>
      insert_author al i t n s =
        (Some TypeError, s\<lparr>calls := calls s @ [Author], open_drivers := Suc (open_drivers s)\<rparr>))"
proof (intro conjI impI)
  assume "path data [''uniprot'', ''entry'', ''gene'', ''name''] = Inr (VList [g]) \<and> gene_shaped g"
  then show "insert_gene data s =
        (None, s\<lparr>log := log s @
           (if spec_gene_selected g
            then [CreateNode ''Gene'' [(''name'', projr (getitem g ''#text''))],
                  CreateRel ''FROM_GENE'' (''Protein'', [(''id_protein'', VStr ''Q9Y261'')])
                    (''Gene'', [(''name'', projr (getitem g ''#text''))])]
            else []),
          calls := calls s @ [Gene]\<rparr>)"
    by (intro insert_gene_one_element) simp_all
next
  assume "path data [''uniprot'', ''entry'', ''gene'', ''name''] = Inr (VDict (kv # kvs))"
  then show "insert_gene data s =
        (Some TypeError, s\<lparr>calls := calls s @ [Gene], open_drivers := Suc (open_drivers s)\<rparr>)"
    by (rule insert_gene_single_dict)
next
  assume "path data [''uniprot'', ''entry'', ''feature''] = Inr (VList [x]) \<and>
    feature_position x = Inr q \<and> getitem x ''@description'' = Inr nm \<and>
    getitem x ''@type'' = Inr ty"
  then show "insert_feature data s =
        (None, s\<lparr>log := log s @
           (if q = VStr ''307'' \<and> nm = VStr ''Phosphoserine'' \<and> ty = VStr ''modified residue''
            then [CreateNode ''Feature'' [(''name'', nm), (''type'', ty)],
                  CreateRel ''HAS_FEATURE'' (''Protein'', [(''id_protein'', VStr ''Q9Y261'')])
                    (''Feature'', [(''name'', nm), (''type'', ty)])]
            else []),
          calls := calls s @ [Feature]\<rparr>)"
    by (elim conjE) (rule insert_feature_one_element; assumption)
next
  assume "path data [''uniprot'', ''entry'', ''feature''] = Inr (VDict (kv # kvs))"
  then show "insert_feature data s =
        (Some TypeError, s\<lparr>calls := calls s @ [Feature], open_drivers := Suc (open_drivers s)\<rparr>)"
    by (rule insert_feature_single_dict)
next
  assume a: "path data [''uniprot'', ''entry'', ''reference''] = Inr (VList [r]) \<and> reference_ok r"
  then have "list_all reference_ok [r]" by simp
  from insert_reference_all_ok[OF conjunct1[OF a] this, of s]
  show "insert_reference data s =
        (None, s\<lparr>log := log s @ spec_reference_block r,
                  calls := calls s @ Reference # (if has_author_list r then [Author] else [])\<rparr>)"
    by simp
next
  assume "path data [''uniprot'', ''entry'', ''reference''] = Inr (VDict (kv # kvs))"
  then show "insert_reference data s =
        (Some (if sublist ''@key'' (fst kv) then TypeError else AttributeError),
         s\<lparr>calls := calls s @ [Reference], open_drivers := Suc (open_drivers s)\<rparr>)"
    by (rule insert_reference_single_dict)
next
  assume a: "path data [''uniprot'', ''entry'', ''organism'', ''name''] = Inr (VList [z]) \<and>
    has_key ''#text'' z"
  have "insert_organism data = sub_importer Organism (for_each organism_step [z])"
    by (simp only: insert_organism_def conjunct1[OF a] bind_e_Inr eval_then_Inr py_iter.simps)
  moreover have "for_each organism_step [z] u = (None, u\<lparr>log := log u @
           (if getitem z ''#text'' = Inr (VStr ''Homo sapiens'')
            then [CreateNode ''Organism''
                    [(''name'', VStr ''Homo sapiens''), (''taxonomy_id'', VStr ''9606'')],
                  CreateRel ''IN_ORGANISM'' (''Protein'', [(''id_protein'', VStr ''Q9Y261'')])
                    (''Organism'',
                     [(''name'', VStr ''Homo sapiens''), (''taxonomy_id'', VStr ''9606'')])]
            else [])\<rparr>)" for u
    by (simp add: organism_step_emits[OF conjunct2[OF a]])
  ultimately show "insert_organism data s =
        (None, s\<lparr>log := log s @
           (if getitem z ''#text'' = Inr (VStr ''Homo sapiens'')
            then [CreateNode ''Organism''
                    [(''name'', VStr ''Homo sapiens''), (''taxonomy_id'', VStr ''9606'')],
                  CreateRel ''IN_ORGANISM'' (''Protein'', [(''id_protein'', VStr ''Q9Y261'')])
                    (''Organism'',
                     [(''name'', VStr ''Homo sapiens''), (''taxonomy_id'', VStr ''9606'')])]
            else []),
          calls := calls s @ [Organism]\<rparr>)"
    by (simp add: sub_importer_emits[where cs = "[]"])
next
  assume "path data [''uniprot'', ''entry'', ''organism'', ''name''] = Inr (VDict (kv # kvs))"
  then show "insert_organism data s =
        (Some TypeError, s\<lparr>calls := calls s @ [Organism], open_drivers := Suc (open_drivers s)\<rparr>)"
    by (rule insert_organism_single_dict)
next
  assume a: "getitem al ''person'' = Inr (VList [p]) \<and> has_key ''@name'' p"
  then have "list_all (has_key ''@name'') [p]" by simp
  from insert_author_emits[OF conjunct1[OF a] this, of i t n s]
  show "insert_author al i t n s =
        (None, s\<lparr>log := log s @
           [CreateNode ''Author'' [(''name'', projr (getitem p ''@name''))],
            CreateRel ''HAS_AUTHOR'' (''Reference'', [(''id'', i), (''type'', t), (''name'', n)])
              (''Author'', [(''name'', projr (getitem p ''@name''))])],
          calls := calls s @ [Author]\<rparr>)"
    by simp
next
  assume "getitem al ''person'' = Inr (VDict (kv # kvs))"
  then show "insert_author al i t n s =
        (Some TypeError, s\<lparr>calls := calls s @ [Author], open_drivers := Suc (open_drivers s)\<rparr>)"
    by (rule insert_author_single_dict)
qed

theorem iterates_without_normalising_witness:
  "insert_gene one_gene_list_doc init =
     (None, init\<lparr>log := gene_stmts (VStr ''FOXA2''), calls := [Gene]\<rparr>) \<and>
   insert_gene one_gene_doc init =
     (Some TypeError, init\<lparr>calls := [Gene], open_drivers := Suc 0\<rparr>) \<and>
   insert_feature (entry_with ''feature'' (VList [phospho_feature])) init =
     (None, init\<lparr>log := feature_stmts (VStr ''Phosphoserine'') (VStr ''modified residue''),
                 calls := [Feature]\<rparr>) \<and>
   insert_feature (entry_with ''feature'' phospho_feature) init =
     (Some TypeError, init\<lparr>calls := [Feature], open_drivers := Suc 0\<rparr>) \<and>
   insert_reference (entry_with ''reference'' (VList [keyed_reference])) init =
     (None, init\<lparr>log := reference_stmts (VStr ''1'') (VStr ''submission'') (VStr ''''),
                 calls := [Reference]\<rparr>) \<and>
   insert_reference (entry_with ''reference'' keyed_reference) init =
     (Some TypeError, init\<lparr>calls := [Reference], open_drivers := Suc 0\<rparr>) \<and>
   insert_reference (entry_with ''reference'' unkeyed_reference) init =
     (Some AttributeError, init\<lparr>calls := [Reference], open_drivers := Suc 0\<rparr>) \<and>
   insert_organism (entry_with ''organism'' (VDict [(''name'', VList [homo_name])])) init =
     (None, init\<lparr>log := organism_stmts (VStr ''Homo sapiens'') (VStr ''9606''),
                 calls := [Organism]\<rparr>) \<and>
   insert_organism (entry_with ''organism'' (VDict [(''name'', homo_name)])) init =
     (Some TypeError, init\<lparr>calls := [Organism], open_drivers := Suc 0\<rparr>) \<and>
   insert_author one_person_list (VStr ''1'') (VStr ''a'') (VStr ''b'') init =
     (None, init\<lparr>log := author_stmts (VStr ''1'') (VStr ''a'') (VStr ''b'') (VStr ''Yamada S.''),
                 calls := [Author]\<rparr>) \<and>
   insert_author one_person (VStr ''1'') (VStr ''a'') (VStr ''b'') init =
     (Some TypeError, init\<lparr>calls := [Author], open_drivers := Suc 0\<rparr>)"
proof -
  let ?g = "VDict [(''@type'', VStr ''primary''), (''#text'', VStr ''FOXA2'')]"
  let ?p = "VDict [(''@name'', VStr ''Yamada S.'')]"
  note inst = iterates_without_normalising
  have gl: "path one_gene_list_doc [''uniprot'', ''entry'', ''gene'', ''name''] = Inr (VList [?g])
            \<and> gene_shaped ?g"
    by (simp add: one_gene_list_doc_def bind_e_def gene_shaped_def has_key_def)
  from inst[where data = one_gene_list_doc and g = ?g and s = init] gl
  have 1: "insert_gene one_gene_list_doc init =
     (None, init\<lparr>log := gene_stmts (VStr ''FOXA2''), calls := [Gene]\<rparr>)"
    by (simp add: spec_gene_selected_def init_def gene_stmts_def protein_anchor_def)
  have gd: "path one_gene_doc [''uniprot'', ''entry'', ''gene'', ''name'']
              = Inr (VDict ((''@type'', VStr ''primary'') # [(''#text'', VStr ''FOXA2'')]))"
    by (simp add: one_gene_doc_def bind_e_def)
  from inst[where data = one_gene_doc and kv = "(''@type'', VStr ''primary'')"
      and kvs = "[(''#text'', VStr ''FOXA2'')]" and s = init] gd
  have 2: "insert_gene one_gene_doc init =
     (Some TypeError, init\<lparr>calls := [Gene], open_drivers := Suc 0\<rparr>)"
    by (simp add: init_def)
  have fl: "path (entry_with ''feature'' (VList [phospho_feature])) [''uniprot'', ''entry'', ''feature'']
              = Inr (VList [phospho_feature]) \<and>
            feature_position phospho_feature = Inr (VStr ''307'') \<and>
            getitem phospho_feature ''@description'' = Inr (VStr ''Phosphoserine'') \<and>
            getitem phospho_feature ''@type'' = Inr (VStr ''modified residue'')"
    by (simp add: entry_with_def phospho_feature_def feature_position_def bind_e_def)
  from inst[where data = "entry_with ''feature'' (VList [phospho_feature])" and x = phospho_feature
      and q = "VStr ''307''" and nm = "VStr ''Phosphoserine''" and ty = "VStr ''modified residue''"
      and s = init] fl
  have 3: "insert_feature (entry_with ''feature'' (VList [phospho_feature])) init =
     (None, init\<lparr>log := feature_stmts (VStr ''Phosphoserine'') (VStr ''modified residue''),
                 calls := [Feature]\<rparr>)"
    by (simp add: init_def feature_stmts_def protein_anchor_def)
  have fd: "path (entry_with ''feature'' phospho_feature) [''uniprot'', ''entry'', ''feature'']
      = Inr (VDict ((''@type'', VStr ''modified residue'') #
          [(''@description'', VStr ''Phosphoserine''),
           (''location'', VDict [(''position'', VDict [(''@position'', VStr ''307'')])])]))"
    by (simp add: entry_with_def phospho_feature_def bind_e_def)
  from inst[where data = "entry_with ''feature'' phospho_feature"
      and kv = "(''@type'', VStr ''modified residue'')"
      and kvs = "[(''@description'', VStr ''Phosphoserine''),
           (''location'', VDict [(''position'', VDict [(''@position'', VStr ''307'')])])]"
      and s = init] fd
  have 4: "insert_feature (entry_with ''feature'' phospho_feature) init =
     (Some TypeError, init\<lparr>calls := [Feature], open_drivers := Suc 0\<rparr>)"
    by (simp add: init_def)
  have rl: "path (entry_with ''reference'' (VList [keyed_reference])) [''uniprot'', ''entry'', ''reference'']
              = Inr (VList [keyed_reference]) \<and> reference_ok keyed_reference"
    by (simp add: entry_with_def keyed_reference_def bind_e_def reference_ok_def)
  have rb: "spec_reference_block keyed_reference
              = reference_stmts (VStr ''1'') (VStr ''submission'') (VStr '''')"
    and rh: "\<not> has_author_list keyed_reference"
    by (simp_all add: keyed_reference_def spec_reference_block_def spec_reference_key_def
        spec_reference_id_def spec_citation_field_def spec_persons_def reference_stmts_def
        protein_anchor_def has_author_list_def bind_e_def)
  from inst[where data = "entry_with ''reference'' (VList [keyed_reference])" and r = keyed_reference
      and s = init] rl
  have "insert_reference (entry_with ''reference'' (VList [keyed_reference])) init =
        (None, init\<lparr>log := log init @ spec_reference_block keyed_reference,
                  calls := calls init @ Reference #
                    (if has_author_list keyed_reference then [Author] else [])\<rparr>)"
    by blast
  then have 5: "insert_reference (entry_with ''reference'' (VList [keyed_reference])) init =
     (None, init\<lparr>log := reference_stmts (VStr ''1'') (VStr ''submission'') (VStr ''''),
                 calls := [Reference]\<rparr>)"
    by (simp only: rb rh if_False) (simp add: init_def)
  have rk: "path (entry_with ''reference'' keyed_reference) [''uniprot'', ''entry'', ''reference'']
      = Inr (VDict ((''@key'', VStr ''1'') # [(''citation'', VDict [(''@type'', VStr ''submission'')])]))"
    by (simp add: entry_with_def keyed_reference_def bind_e_def)
  from inst[where data = "entry_with ''reference'' keyed_reference" and kv = "(''@key'', VStr ''1'')"
      and kvs = "[(''citation'', VDict [(''@type'', VStr ''submission'')])]" and s = init] rk
  have 6: "insert_reference (entry_with ''reference'' keyed_reference) init =
     (Some TypeError, init\<lparr>calls := [Reference], open_drivers := Suc 0\<rparr>)"
    by (simp add: init_def)
  have ru: "path (entry_with ''reference'' unkeyed_reference) [''uniprot'', ''entry'', ''reference'']
      = Inr (VDict ((''citation'', VDict [(''@type'', VStr ''submission'')]) # []))"
    by (simp add: entry_with_def unkeyed_reference_def bind_e_def)
  from inst[where data = "entry_with ''reference'' unkeyed_reference"
      and kv = "(''citation'', VDict [(''@type'', VStr ''submission'')])" and kvs = "[]"
      and s = init] ru
  have 7: "insert_reference (entry_with ''reference'' unkeyed_reference) init =
     (Some AttributeError, init\<lparr>calls := [Reference], open_drivers := Suc 0\<rparr>)"
    by (simp add: init_def sublist_code)
  have ol: "path (entry_with ''organism'' (VDict [(''name'', VList [homo_name])]))
              [''uniprot'', ''entry'', ''organism'', ''name''] = Inr (VList [homo_name]) \<and>
            has_key ''#text'' homo_name"
    by (simp add: entry_with_def homo_name_def bind_e_def has_key_def)
  from inst[where data = "entry_with ''organism'' (VDict [(''name'', VList [homo_name])])"
      and z = homo_name and s = init] ol
  have 8: "insert_organism (entry_with ''organism'' (VDict [(''name'', VList [homo_name])])) init =
     (None, init\<lparr>log := organism_stmts (VStr ''Homo sapiens'') (VStr ''9606''),
                 calls := [Organism]\<rparr>)"
    by (simp add: init_def homo_name_def organism_stmts_def protein_anchor_def)
  have od: "path (entry_with ''organism'' (VDict [(''name'', homo_name)]))
              [''uniprot'', ''entry'', ''organism'', ''name'']
      = Inr (VDict ((''@type'', VStr ''scientific'') # [(''#text'', VStr ''Homo sapiens'')]))"
    by (simp add: entry_with_def homo_name_def bind_e_def)
  from inst[where data = "entry_with ''organism'' (VDict [(''name'', homo_name)])"
      and kv = "(''@type'', VStr ''scientific'')" and kvs = "[(''#text'', VStr ''Homo sapiens'')]"
      and s = init] od
  have 9: "insert_organism (entry_with ''organism'' (VDict [(''name'', homo_name)])) init =
     (Some TypeError, init\<lparr>calls := [Organism], open_drivers := Suc 0\<rparr>)"
    by (simp add: init_def)
  have pl: "getitem one_person_list ''person'' = Inr (VList [?p]) \<and> has_key ''@name'' ?p"
    by (simp add: one_person_list_def has_key_def)
  from inst[where al = one_person_list and p = ?p and s = init
      and i = "VStr ''1''" and t = "VStr ''a''" and n = "VStr ''b''"] pl
  have 10: "insert_author one_person_list (VStr ''1'') (VStr ''a'') (VStr ''b'') init =
     (None, init\<lparr>log := author_stmts (VStr ''1'') (VStr ''a'') (VStr ''b'') (VStr ''Yamada S.''),
                 calls := [Author]\<rparr>)"
    by (simp add: init_def author_stmts_def)
  have pd: "getitem one_person ''person'' = Inr (VDict ((''@name'', VStr ''Yamada S.'') # []))"
    by (simp add: one_person_def)
  from inst[where al = one_person and kv = "(''@name'', VStr ''Yamada S.'')" and kvs = "[]"
      and s = init and i = "VStr ''1''" and t = "VStr ''a''" and n = "VStr ''b''"] pd
  have 11: "insert_author one_person (VStr ''1'') (VStr ''a'') (VStr ''b'') init =
     (Some TypeError, init\<lparr>calls := [Author], open_drivers := Suc 0\<rparr>)"
    by (simp add: init_def)
  from 1 2 3 4 5 6 7 8 9 10 11 show ?thesis by (intro conjI)
qed

end
